theory Spec2Isabelle
  imports Complex_Main
begin

section \<open>Data model\<close>

text \<open>
  The store (\<^verbatim>\<open>src/store/ProceduralContext.tsx\<close>) and the reviewer component
  (\<^verbatim>\<open>src/components/KnowledgeInspectorNode.tsx\<close>) import their types from
  \<^verbatim>\<open>../types\<close>, a module that is not among the source files. The types below
  have the keys that the code reads and writes and that the specification lists. A
  JavaScript number is modelled as \<^typ>\<open>int\<close> for generation stamps and counters and
  as \<^typ>\<open>real\<close> for geometry; an optional key is an \<open>option\<close>, with \<open>None\<close>
  standing both for an absent key and for a key whose value is \<^verbatim>\<open>undefined\<close> (the
  code reads both as \<^verbatim>\<open>undefined\<close>, and \<^verbatim>\<open>JSON.stringify\<close> omits both).
\<close>

text \<open>The exception of a property access on \<^verbatim>\<open>undefined\<close>.\<close>

datatype error = TypeError

text \<open>
  Modelled from the spec: the type of \<^verbatim>\<open>status\<close>, declared in \<^verbatim>\<open>../types\<close>;
  the specification gives the enumeration idle, loading, success, error.
\<close>

datatype status = Idle | Loading | Success | Error

subsection \<open>Numbers of the geometry\<close>

text \<open>
  A JavaScript number of the geometry is an IEEE 754 binary64 value: a finite value, an
  infinity or \<^verbatim>\<open>NaN\<close>. The two zeros are one value here: the code compares with
  \<^verbatim>\<open>===\<close> and serialises with \<^verbatim>\<open>JSON.stringify\<close>, which do not tell them
  apart, and never divides.
\<close>

datatype number = Fin real | PosInf | NegInf | NaN

definition pow2 :: "int \<Rightarrow> real" where
  "pow2 k = (if 0 \<le> k then 2 ^ nat k else 1 / 2 ^ nat (- k))"

text \<open>Rounding to the nearest integer, ties to the even one.\<close>

definition roundEven :: "real \<Rightarrow> int" where
  "roundEven x =
     (let f = \<lfloor>x\<rfloor>; d = x - of_int f
      in if d < 1 / 2 then f else if 1 / 2 < d then f + 1 else if even f then f else f + 1)"

text \<open>
  The binary64 value of a real result: 53 significant bits, round to nearest, ties to
  even; below \<open>2\<^sup>-\<^sup>1\<^sup>0\<^sup>2\<^sup>2\<close> the spacing stays \<open>2\<^sup>-\<^sup>1\<^sup>0\<^sup>7\<^sup>4\<close> (subnormal numbers), and a
  rounded magnitude of \<open>2\<^sup>1\<^sup>0\<^sup>2\<^sup>4\<close> or more is an infinity.
\<close>

definition round64 :: "real \<Rightarrow> number" where
  "round64 x =
     (if x = 0 then Fin 0
      else
        (let e = max \<lfloor>log 2 \<bar>x\<bar>\<rfloor> (- 1022);
             ulp = pow2 (e - 52);
             y = of_int (roundEven (\<bar>x\<bar> / ulp)) * ulp
         in if pow2 1024 \<le> y then (if 0 < x then PosInf else NegInf)
            else Fin (if 0 < x then y else - y)))"

text \<open>\<^verbatim>\<open>a + b\<close> and \<^verbatim>\<open>a * b\<close> on numbers.\<close>

fun dadd :: "number \<Rightarrow> number \<Rightarrow> number" where
  "dadd NaN b = NaN"
| "dadd a NaN = NaN"
| "dadd (Fin x) (Fin y) = round64 (x + y)"
| "dadd PosInf NegInf = NaN"
| "dadd NegInf PosInf = NaN"
| "dadd PosInf b = PosInf"
| "dadd a PosInf = PosInf"
| "dadd NegInf b = NegInf"
| "dadd a NegInf = NegInf"

fun dmul :: "number \<Rightarrow> number \<Rightarrow> number" where
  "dmul NaN b = NaN"
| "dmul a NaN = NaN"
| "dmul (Fin x) (Fin y) = round64 (x * y)"
| "dmul (Fin x) PosInf = (if x = 0 then NaN else if 0 < x then PosInf else NegInf)"
| "dmul (Fin x) NegInf = (if x = 0 then NaN else if 0 < x then NegInf else PosInf)"
| "dmul PosInf (Fin y) = (if y = 0 then NaN else if 0 < y then PosInf else NegInf)"
| "dmul NegInf (Fin y) = (if y = 0 then NaN else if 0 < y then NegInf else PosInf)"
| "dmul PosInf PosInf = PosInf"
| "dmul PosInf NegInf = NegInf"
| "dmul NegInf PosInf = NegInf"
| "dmul NegInf NegInf = PosInf"

text \<open>Truthiness of a number: zero and \<^verbatim>\<open>NaN\<close> are falsy.\<close>

fun truthy_number :: "number \<Rightarrow> bool" where
  "truthy_number (Fin x) = (x \<noteq> 0)"
| "truthy_number NaN = False"
| "truthy_number PosInf = True"
| "truthy_number NegInf = True"

subsection \<open>Layers, overrides and payloads\<close>

text \<open>
  Modelled from the spec: the coordinates and the transform of a layer, declared in
  \<^verbatim>\<open>../types\<close>, with the keys that \<^verbatim>\<open>applyOverridesToPayload\<close> uses.
\<close>

record coords =
  coord_x :: number
  coord_y :: number
  coord_w :: number
  coord_h :: number

record transform =
  scaleX :: number
  scaleY :: number
  offsetX :: number
  offsetY :: number
  rotation :: "number option"

text \<open>
  Modelled from the spec: \<^verbatim>\<open>TransformedLayer\<close>, declared in \<^verbatim>\<open>../types\<close>: a
  node of the layer tree, with id, name, type tag, visibility, opacity, coordinates and
  transform. The children are owned by value; the key \<^verbatim>\<open>children\<close> is optional.
\<close>

datatype layer =
  Layer (l_id: string) (l_name: string) (l_type: string) (l_isVisible: bool)
        (l_opacity: number) (l_coords: coords) (l_transform: transform)
        (l_children: "layer list option")

text \<open>
  Modelled from the spec: \<^verbatim>\<open>LayerOverride\<close>, declared in \<^verbatim>\<open>../types\<close>: one
  correction of a reviewer, keyed by layer id. The code guards the scale and the rotation
  against a missing value.
\<close>

record layerOverride =
  layerId :: string
  xOffset :: number
  yOffset :: number
  individualScale :: "number option"
  o_rotation :: "number option"
  citedRule :: string

text \<open>
  Modelled from the spec: the geometry record \<^verbatim>\<open>metrics\<close> of a payload, declared
  in \<^verbatim>\<open>../types\<close>. The store passes it through and never looks inside; the
  renderer reads \<^verbatim>\<open>metrics.target.w\<close> and \<^verbatim>\<open>metrics.target.h\<close>.
\<close>

record metricsRec =
  target_w :: number
  target_h :: number

text \<open>
  Modelled from the spec: \<^verbatim>\<open>TransformedPayload\<close>, declared in \<^verbatim>\<open>../types\<close>,
  with the keys that the store reads and writes. Producers are free to leave keys out
  (\<^verbatim>\<open>updatePayload\<close> casts a \<^verbatim>\<open>Partial<TransformedPayload>\<close> to the full
  type, and the scenarios of the specification write payloads of three keys), so every
  key is optional at run time. Keys that the store only copies are left out.
\<close>

record payload =
  status :: "status option"
  sourceContainer :: "string option"
  targetContainer :: "string option"
  previewUrl :: "string option"
  sourceReference :: "string option"
  generationId :: "int option"
  isSynthesizing :: "bool option"
  isConfirmed :: "bool option"
  isTransient :: "bool option"
  generationAllowed :: "bool option"
  isMandatory :: "bool option"
  requiresGeneration :: "bool option"
  isPolished :: "bool option"
  directives :: "string list option"
  metrics :: "metricsRec option"
  layers :: "layer list option"

text \<open>The object \<^verbatim>\<open>{}\<close>, from which concrete payloads are written by update.\<close>

definition emptyPayload :: payload where
  "emptyPayload =
     \<lparr> status = None, sourceContainer = None, targetContainer = None, previewUrl = None,
       sourceReference = None, generationId = None, isSynthesizing = None, isConfirmed = None,
       isTransient = None, generationAllowed = None, isMandatory = None,
       requiresGeneration = None, isPolished = None, directives = None, metrics = None,
       layers = None \<rparr>"

section \<open>JavaScript operators on optional values\<close>

text \<open>Truthiness: \<^verbatim>\<open>undefined\<close>, \<^verbatim>\<open>''\<close>, \<^verbatim>\<open>0\<close> and \<^verbatim>\<open>false\<close> are falsy.\<close>

definition truthy_str :: "string option \<Rightarrow> bool" where
  "truthy_str v = (case v of None \<Rightarrow> False | Some s \<Rightarrow> s \<noteq> [])"

definition truthy_num :: "int option \<Rightarrow> bool" where
  "truthy_num v = (case v of None \<Rightarrow> False | Some n \<Rightarrow> n \<noteq> 0)"

definition truthy_bool :: "bool option \<Rightarrow> bool" where
  "truthy_bool v = (case v of None \<Rightarrow> False | Some b \<Rightarrow> b)"

text \<open>\<^verbatim>\<open>a || b\<close>: the left operand when it is truthy, else the right one.\<close>

definition or_str :: "string option \<Rightarrow> string option \<Rightarrow> string option" where
  "or_str a b = (if truthy_str a then a else b)"

definition or_int :: "int option \<Rightarrow> int option \<Rightarrow> int option" where
  "or_int a b = (if truthy_num a then a else b)"

text \<open>\<^verbatim>\<open>a || b\<close> on objects, which are truthy whenever they are defined.\<close>

definition or_obj :: "'a option \<Rightarrow> 'a option \<Rightarrow> 'a option" where
  "or_obj a b = (case a of None \<Rightarrow> b | Some _ \<Rightarrow> a)"

text \<open>\<^verbatim>\<open>a ?? b\<close>: the left operand unless it is \<^verbatim>\<open>undefined\<close>.\<close>

definition nullish :: "'a option \<Rightarrow> 'a option \<Rightarrow> 'a option" where
  "nullish a b = (case a of None \<Rightarrow> b | Some _ \<Rightarrow> a)"

text \<open>\<^verbatim>\<open>currentPayload?.f\<close>: the field of the current payload, if there is one.\<close>

definition cur :: "(payload \<Rightarrow> 'a option) \<Rightarrow> payload option \<Rightarrow> 'a option" where
  "cur f currentPayload = (case currentPayload of None \<Rightarrow> None | Some c \<Rightarrow> f c)"

text \<open>\<^verbatim>\<open>s.startsWith(p)\<close>.\<close>

definition startsWith :: "string \<Rightarrow> string \<Rightarrow> bool" where
  "startsWith s p = (take (length p) s = p)"

section \<open>The reconciler\<close>

text \<open>
  The predicate of the filter in the generation gate:
  \<^verbatim>\<open>l.type !== 'generative' || (l.id && !l.id.startsWith('gen-layer-'))\<close>.
\<close>

definition keepLayer :: "layer \<Rightarrow> bool" where
  "keepLayer l =
     (l_type l \<noteq> ''generative'' \<or> (l_id l \<noteq> [] \<and> \<not> startsWith (l_id l) ''gen-layer-''))"

text \<open>\<^verbatim>\<open>incomingPayload.directives?.includes('MANDATORY_GEN_FILL')\<close>.\<close>

definition hasMandatoryDirective :: "payload \<Rightarrow> bool" where
  "hasMandatoryDirective p =
     (case directives p of None \<Rightarrow> False | Some ds \<Rightarrow> ''MANDATORY_GEN_FILL'' \<in> set ds)"

definition isForced :: "payload \<Rightarrow> bool" where
  "isForced p = (truthy_bool (isMandatory p) \<or> hasMandatoryDirective p)"

text \<open>The condition \<^verbatim>\<open>isForced && incomingPayload.requiresGeneration\<close>.\<close>

definition autoConfirm :: "payload \<Rightarrow> bool" where
  "autoConfirm p = (isForced p \<and> truthy_bool (requiresGeneration p))"

text \<open>
  The condition of the stale guard:
  \<^verbatim>\<open>currentPayload?.generationId && incomingPayload.generationId &&
  incomingPayload.generationId < currentPayload.generationId\<close>.
\<close>

definition staleGuard :: "payload \<Rightarrow> payload option \<Rightarrow> bool" where
  "staleGuard incomingPayload currentPayload =
     (case cur generationId currentPayload of
        None \<Rightarrow> False
      | Some gc \<Rightarrow>
          (case generationId incomingPayload of
             None \<Rightarrow> False
           | Some gi \<Rightarrow> gc \<noteq> 0 \<and> gi \<noteq> 0 \<and> gi < gc))"

text \<open>
  The condition of geometric preservation:
  \<^verbatim>\<open>!incomingPayload.generationId && currentPayload?.generationId\<close>.
\<close>

definition geometricPreservation :: "payload \<Rightarrow> payload option \<Rightarrow> bool" where
  "geometricPreservation incomingPayload currentPayload =
     (\<not> truthy_num (generationId incomingPayload) \<and> truthy_num (cur generationId currentPayload))"

text \<open>
  \<^verbatim>\<open>reconcileTerminalState\<close>, branch by branch in the order of the source. An object
  spread \<^verbatim>\<open>{...p, k: v}\<close> is a record update. The only failure is the
  \<^verbatim>\<open>TypeError\<close> of \<^verbatim>\<open>incomingPayload.layers.filter\<close> on a payload without layers.
  The stale guard holds only when there is a current payload, which that branch returns.
\<close>

definition reconcileTerminalState :: "payload \<Rightarrow> payload option \<Rightarrow> error + payload" where
  "reconcileTerminalState incomingPayload currentPayload =
     (if generationAllowed incomingPayload = Some False then
        (case layers incomingPayload of
           None \<Rightarrow> Inl TypeError
         | Some ls \<Rightarrow>
             Inr (incomingPayload\<lparr>
               previewUrl := None,
               isConfirmed := Some False,
               isTransient := Some False,
               isSynthesizing := Some False,
               requiresGeneration := Some False,
               metrics := metrics incomingPayload,
               layers := Some (filter keepLayer ls)\<rparr>))
      else if autoConfirm incomingPayload then
        Inr (incomingPayload\<lparr>
          status := Some Success,
          isConfirmed := Some True,
          isTransient := Some False,
          isSynthesizing := isSynthesizing incomingPayload,
          previewUrl := or_str (previewUrl incomingPayload) (cur previewUrl currentPayload),
          sourceReference :=
            or_str (sourceReference incomingPayload) (cur sourceReference currentPayload),
          generationId := or_int (generationId incomingPayload) (cur generationId currentPayload)\<rparr>)
      else if staleGuard incomingPayload currentPayload then
        Inr (the currentPayload)
      else if status incomingPayload = Some Idle then
        Inr (incomingPayload\<lparr>
          previewUrl := None,
          isConfirmed := Some False,
          isTransient := Some False,
          isSynthesizing := Some False\<rparr>)
      else if truthy_bool (isSynthesizing incomingPayload) then
        Inr ((case currentPayload of None \<Rightarrow> incomingPayload | Some c \<Rightarrow> c)\<lparr>
          isSynthesizing := Some True,
          previewUrl := cur previewUrl currentPayload,
          sourceReference :=
            or_str (sourceReference incomingPayload) (cur sourceReference currentPayload),
          targetContainer :=
            or_str (or_str (targetContainer incomingPayload) (cur targetContainer currentPayload))
                   (Some []),
          metrics := or_obj (metrics incomingPayload) (cur metrics currentPayload),
          generationId := cur generationId currentPayload,
          generationAllowed := Some True\<rparr>)
      else if geometricPreservation incomingPayload currentPayload then
        Inr (incomingPayload\<lparr>
          previewUrl := cur previewUrl currentPayload,
          generationId := cur generationId currentPayload,
          isSynthesizing := cur isSynthesizing currentPayload,
          isConfirmed := cur isConfirmed currentPayload,
          isTransient := cur isTransient currentPayload,
          sourceReference :=
            or_str (cur sourceReference currentPayload) (sourceReference incomingPayload),
          generationAllowed := Some True\<rparr>)
      else
        Inr (incomingPayload\<lparr>
          isConfirmed :=
            (if truthy_bool (isTransient incomingPayload) then Some False
             else nullish (nullish (isConfirmed incomingPayload) (cur isConfirmed currentPayload))
                          (Some False)),
          sourceReference :=
            or_str (sourceReference incomingPayload) (cur sourceReference currentPayload),
          generationId := or_int (generationId incomingPayload) (cur generationId currentPayload),
          generationAllowed := Some True\<rparr>))"

section \<open>Payload objects\<close>

text \<open>
  A stored or written payload is a JavaScript object: besides the values of its keys it
  has an order of keys, the order of insertion, which \<^verbatim>\<open>JSON.stringify\<close> follows. The
  record \<^typ>\<open>payload\<close> holds the values; an object adds the list of the keys it has. A
  key that is not in the list reads as \<^verbatim>\<open>undefined\<close> whatever the record says.
  Objects have the keys of \<^typ>\<open>payload\<close> only, and a nested object (a layer, its
  coordinates, the metrics) has its keys in the order of its declaration; no operation
  of the store reorders the keys of a nested object.
\<close>

datatype key =
  K_status | K_sourceContainer | K_targetContainer | K_previewUrl | K_sourceReference |
  K_generationId | K_isSynthesizing | K_isConfirmed | K_isTransient | K_generationAllowed |
  K_isMandatory | K_requiresGeneration | K_isPolished | K_directives | K_metrics | K_layers

record obj =
  val :: payload
  keys :: "key list"

text \<open>Reading a key of an object.\<close>

definition has :: "obj \<Rightarrow> key \<Rightarrow> bool" where
  "has ob k = (k \<in> set (keys ob))"

definition rd :: "obj \<Rightarrow> key \<Rightarrow> 'a option \<Rightarrow> 'a option" where
  "rd ob k v = (if has ob k then v else None)"

text \<open>The values that the code reads from an object, key by key.\<close>

definition view :: "obj \<Rightarrow> payload" where
  "view ob =
     \<lparr> status = rd ob K_status (status (val ob)),
       sourceContainer = rd ob K_sourceContainer (sourceContainer (val ob)),
       targetContainer = rd ob K_targetContainer (targetContainer (val ob)),
       previewUrl = rd ob K_previewUrl (previewUrl (val ob)),
       sourceReference = rd ob K_sourceReference (sourceReference (val ob)),
       generationId = rd ob K_generationId (generationId (val ob)),
       isSynthesizing = rd ob K_isSynthesizing (isSynthesizing (val ob)),
       isConfirmed = rd ob K_isConfirmed (isConfirmed (val ob)),
       isTransient = rd ob K_isTransient (isTransient (val ob)),
       generationAllowed = rd ob K_generationAllowed (generationAllowed (val ob)),
       isMandatory = rd ob K_isMandatory (isMandatory (val ob)),
       requiresGeneration = rd ob K_requiresGeneration (requiresGeneration (val ob)),
       isPolished = rd ob K_isPolished (isPolished (val ob)),
       directives = rd ob K_directives (directives (val ob)),
       metrics = rd ob K_metrics (metrics (val ob)),
       layers = rd ob K_layers (layers (val ob)) \<rparr>"

text \<open>
  The keys of \<^verbatim>\<open>{...base, k1: v1, ..., kn: vn}\<close>: those of the base in their order, then
  the keys of the literal that the base does not have, in the order of the literal.
\<close>

definition spreadKeys :: "key list \<Rightarrow> key list \<Rightarrow> key list" where
  "spreadKeys base lit = base @ filter (\<lambda>k. k \<notin> set base) lit"

text \<open>The value of a key, whatever its type.\<close>

datatype fieldValue =
  VUndefined | VStatus status | VString string | VInt int | VBool bool
  | VStrings "string list" | VMetrics metricsRec | VLayers "layer list"

definition tagged :: "('a \<Rightarrow> fieldValue) \<Rightarrow> 'a option \<Rightarrow> fieldValue" where
  "tagged tag v = (case v of None \<Rightarrow> VUndefined | Some x \<Rightarrow> tag x)"

fun fieldOf :: "payload \<Rightarrow> key \<Rightarrow> fieldValue" where
  "fieldOf p K_status = tagged VStatus (status p)"
| "fieldOf p K_sourceContainer = tagged VString (sourceContainer p)"
| "fieldOf p K_targetContainer = tagged VString (targetContainer p)"
| "fieldOf p K_previewUrl = tagged VString (previewUrl p)"
| "fieldOf p K_sourceReference = tagged VString (sourceReference p)"
| "fieldOf p K_generationId = tagged VInt (generationId p)"
| "fieldOf p K_isSynthesizing = tagged VBool (isSynthesizing p)"
| "fieldOf p K_isConfirmed = tagged VBool (isConfirmed p)"
| "fieldOf p K_isTransient = tagged VBool (isTransient p)"
| "fieldOf p K_generationAllowed = tagged VBool (generationAllowed p)"
| "fieldOf p K_isMandatory = tagged VBool (isMandatory p)"
| "fieldOf p K_requiresGeneration = tagged VBool (requiresGeneration p)"
| "fieldOf p K_isPolished = tagged VBool (isPolished p)"
| "fieldOf p K_directives = tagged VStrings (directives p)"
| "fieldOf p K_metrics = tagged VMetrics (metrics p)"
| "fieldOf p K_layers = tagged VLayers (layers p)"

text \<open>Whether a key has a value other than \<^verbatim>\<open>undefined\<close>.\<close>

definition defined :: "payload \<Rightarrow> key \<Rightarrow> bool" where
  "defined p k = (fieldOf p k \<noteq> VUndefined)"

text \<open>
  Numbers in JSON: \<^verbatim>\<open>JSON.stringify\<close> writes \<^verbatim>\<open>null\<close> for an infinity and for
  \<^verbatim>\<open>NaN\<close> alike, so the three have one image.
\<close>

fun jsonNumber :: "number \<Rightarrow> number" where
  "jsonNumber (Fin x) = Fin x"
| "jsonNumber PosInf = NaN"
| "jsonNumber NegInf = NaN"
| "jsonNumber NaN = NaN"

definition jsonCoords :: "coords \<Rightarrow> coords" where
  "jsonCoords c =
     \<lparr> coord_x = jsonNumber (coord_x c), coord_y = jsonNumber (coord_y c),
       coord_w = jsonNumber (coord_w c), coord_h = jsonNumber (coord_h c) \<rparr>"

definition jsonTransform :: "transform \<Rightarrow> transform" where
  "jsonTransform t =
     \<lparr> scaleX = jsonNumber (scaleX t), scaleY = jsonNumber (scaleY t),
       offsetX = jsonNumber (offsetX t), offsetY = jsonNumber (offsetY t),
       rotation = map_option jsonNumber (rotation t) \<rparr>"

fun jsonLayer :: "layer \<Rightarrow> layer" where
  "jsonLayer (Layer lid nm ty vis op c tr ch) =
     Layer lid nm ty vis (jsonNumber op) (jsonCoords c) (jsonTransform tr)
       (map_option (map jsonLayer) ch)"

definition jsonMetrics :: "metricsRec \<Rightarrow> metricsRec" where
  "jsonMetrics m = \<lparr> target_w = jsonNumber (target_w m), target_h = jsonNumber (target_h m) \<rparr>"

text \<open>
  The image of an object under \<^verbatim>\<open>JSON.stringify\<close>: the keys with a defined value, in
  the order of the object, and the values with their numbers as JSON has them. Two
  objects give the same text exactly when they have the same image.
\<close>

definition jsonKeys :: "obj \<Rightarrow> key list" where
  "jsonKeys ob = filter (defined (view ob)) (keys ob)"

definition jsonValues :: "obj \<Rightarrow> payload" where
  "jsonValues ob =
     (view ob)\<lparr> metrics := map_option jsonMetrics (metrics (view ob)),
                layers := map_option (map jsonLayer) (layers (view ob)) \<rparr>"

definition stringify :: "obj \<Rightarrow> key list \<times> payload" where
  "stringify ob = (jsonKeys ob, jsonValues ob)"

text \<open>The object \<^verbatim>\<open>{}\<close>.\<close>

definition emptyObj :: obj where
  "emptyObj = \<lparr> val = emptyPayload, keys = [] \<rparr>"

section \<open>Reconciling objects\<close>

text \<open>
  The value that the reconciler receives as \<^verbatim>\<open>currentPayload\<close> is what the lookup
  \<^verbatim>\<open>nodeRecord[handleId]\<close> gives: \<^verbatim>\<open>undefined\<close>, a stored object, or a member that
  the record inherits from its prototype (such as \<^verbatim>\<open>toString\<close>). An inherited member
  is truthy, has none of the keys of a payload and no enumerable keys of its own, so the
  code reads every key of it as \<^verbatim>\<open>undefined\<close> and spreads it to nothing. The flag of
  \<open>Foreign\<close> says whether the member is serialised as \<^verbatim>\<open>{}\<close> (it is an object) or
  not as an object at all (it is a function or a primitive).
\<close>

datatype 'a member = Undefined | Own 'a | Foreign bool

definition currentView :: "obj member \<Rightarrow> payload option" where
  "currentView m = (case m of Undefined \<Rightarrow> None | Own ob \<Rightarrow> Some (view ob)
                    | Foreign j \<Rightarrow> Some emptyPayload)"

definition currentKeys :: "obj member \<Rightarrow> key list option" where
  "currentKeys m = (case m of Undefined \<Rightarrow> None | Own ob \<Rightarrow> Some (keys ob)
                    | Foreign j \<Rightarrow> Some [])"

text \<open>The rule of the reconciler that applies, in the order of the source.\<close>

datatype rule = Gate | AutoConfirm | Stale | IdleReset | Flush | Geometric | DefaultMerge

definition appliedRule :: "payload \<Rightarrow> payload option \<Rightarrow> rule" where
  "appliedRule incomingPayload currentPayload =
     (if generationAllowed incomingPayload = Some False then Gate
      else if autoConfirm incomingPayload then AutoConfirm
      else if staleGuard incomingPayload currentPayload then Stale
      else if status incomingPayload = Some Idle then IdleReset
      else if truthy_bool (isSynthesizing incomingPayload) then Flush
      else if geometricPreservation incomingPayload currentPayload then Geometric
      else DefaultMerge)"

text \<open>
  The keys of the object that the reconciler returns: the spread of its base and the
  keys of the object literal of the rule, in the order in which the source writes them.
  The stale guard returns the current object itself.
\<close>

definition resultKeys :: "obj \<Rightarrow> obj member \<Rightarrow> key list" where
  "resultKeys incoming current =
     (case appliedRule (view incoming) (currentView current) of
        Gate \<Rightarrow>
          spreadKeys (keys incoming)
            [K_previewUrl, K_isConfirmed, K_isTransient, K_isSynthesizing,
             K_requiresGeneration, K_metrics, K_layers]
      | AutoConfirm \<Rightarrow>
          spreadKeys (keys incoming)
            [K_status, K_isConfirmed, K_isTransient, K_isSynthesizing, K_previewUrl,
             K_sourceReference, K_generationId]
      | Stale \<Rightarrow> (case currentKeys current of None \<Rightarrow> [] | Some ks \<Rightarrow> ks)
      | IdleReset \<Rightarrow>
          spreadKeys (keys incoming)
            [K_previewUrl, K_isConfirmed, K_isTransient, K_isSynthesizing]
      | Flush \<Rightarrow>
          spreadKeys (case currentKeys current of None \<Rightarrow> keys incoming | Some ks \<Rightarrow> ks)
            [K_isSynthesizing, K_previewUrl, K_sourceReference, K_targetContainer,
             K_metrics, K_generationId, K_generationAllowed]
      | Geometric \<Rightarrow>
          spreadKeys (keys incoming)
            [K_previewUrl, K_generationId, K_isSynthesizing, K_isConfirmed, K_isTransient,
             K_sourceReference, K_generationAllowed]
      | DefaultMerge \<Rightarrow>
          spreadKeys (keys incoming)
            [K_isConfirmed, K_sourceReference, K_generationId, K_generationAllowed])"

text \<open>
  \<^verbatim>\<open>reconcileTerminalState\<close> on objects: the values are those of
  \<^const>\<open>reconcileTerminalState\<close> on what the code reads from its two arguments.
\<close>

definition reconcileObj :: "obj \<Rightarrow> obj member \<Rightarrow> error + obj" where
  "reconcileObj incoming current =
     (case reconcileTerminalState (view incoming) (currentView current) of
        Inl e \<Rightarrow> Inl e
      | Inr v \<Rightarrow> Inr \<lparr> val = v, keys = resultKeys incoming current \<rparr>)"

text \<open>
  \<^verbatim>\<open>currentPayload && JSON.stringify(currentPayload) === JSON.stringify(reconciledPayload)\<close>.
  A function or a primitive is never serialised as the reconciled object is; an
  inherited object is serialised as \<^verbatim>\<open>{}\<close>.
\<close>

definition sameJson :: "obj member \<Rightarrow> obj \<Rightarrow> bool" where
  "sameJson current reconciled =
     (case current of
        Undefined \<Rightarrow> False
      | Own ob \<Rightarrow> stringify ob = stringify reconciled
      | Foreign j \<Rightarrow> j \<and> stringify emptyObj = stringify reconciled)"

section \<open>The store\<close>

text \<open>
  Modelled from the spec: the values of the types \<^verbatim>\<open>Psd\<close>,
  \<^verbatim>\<open>TemplateMetadata\<close>, \<^verbatim>\<open>MappingContext\<close> and \<^verbatim>\<open>LayoutStrategy\<close>, declared
  outside the store, which the operations below only keep or delete. They are JSON
  trees here.
\<close>

datatype json =
  JNull | JBool bool | JNum number | JStr string | JArr "json list"
  | JObj "(string \<times> json) list"

text \<open>
  Modelled from the spec: \<^verbatim>\<open>KnowledgeContext\<close>, declared in \<^verbatim>\<open>../types\<close>, with
  the keys that the inspector writes. A context is an object, hence truthy.
\<close>

record knowledgeContext =
  rules :: "string option"
  sourceNodeId :: "string option"

text \<open>
  A registry is a plain JavaScript object used as a dictionary. The maps below hold its
  own keys; what a lookup finds beyond them is in \<open>readSlot\<close>.
\<close>

record ProceduralState =
  psdRegistry :: "string \<rightharpoonup> json"
  templateRegistry :: "string \<rightharpoonup> json"
  resolvedRegistry :: "string \<rightharpoonup> (string \<rightharpoonup> json)"
  payloadRegistry :: "string \<rightharpoonup> (string \<rightharpoonup> obj)"
  reviewerRegistry :: "string \<rightharpoonup> (string \<rightharpoonup> obj)"
  previewRegistry :: "string \<rightharpoonup> (string \<rightharpoonup> string)"
  analysisRegistry :: "string \<rightharpoonup> (string \<rightharpoonup> json)"
  knowledgeRegistry :: "string \<rightharpoonup> knowledgeContext"
  globalVersion :: int

text \<open>The state of a freshly mounted \<^verbatim>\<open>ProceduralStoreProvider\<close>.\<close>

definition initialState :: ProceduralState where
  "initialState =
     \<lparr> psdRegistry = Map.empty, templateRegistry = Map.empty, resolvedRegistry = Map.empty,
       payloadRegistry = Map.empty, reviewerRegistry = Map.empty, previewRegistry = Map.empty,
       analysisRegistry = Map.empty, knowledgeRegistry = Map.empty, globalVersion = 0 \<rparr>"

subsection \<open>Lookups\<close>

text \<open>
  The names that every plain object inherits from \<^verbatim>\<open>Object.prototype\<close>: a lookup
  \<^verbatim>\<open>obj[name]\<close> finds a function under each of them, and \<^verbatim>\<open>Object.prototype\<close>
  itself under \<^verbatim>\<open>__proto__\<close>, when the object has no key of that name.
\<close>

definition objectPrototypeKeys :: "string list" where
  "objectPrototypeKeys =
     [''constructor'', ''__defineGetter__'', ''__defineSetter__'', ''hasOwnProperty'',
      ''__lookupGetter__'', ''__lookupSetter__'', ''isPrototypeOf'',
      ''propertyIsEnumerable'', ''toString'', ''valueOf'', ''__proto__'',
      ''toLocaleString'']"

text \<open>\<^verbatim>\<open>obj[name]\<close> on a plain object that has no key \<^verbatim>\<open>name\<close> of its own.\<close>

definition inheritedMember :: "string \<Rightarrow> 'a member" where
  "inheritedMember name =
     (if name \<in> set objectPrototypeKeys then Foreign (name = ''__proto__'') else Undefined)"

text \<open>
  When \<^verbatim>\<open>prev[nodeId]\<close> is itself an inherited member, \<^verbatim>\<open>nodeRecord\<close> is a built-in
  function (or \<^verbatim>\<open>Object.prototype\<close>), and \<^verbatim>\<open>nodeRecord[handleId]\<close> reads a member of
  that built-in. What is found there belongs to the JavaScript engine, not to the store:
  it is a parameter of the operations. A member of a built-in is falsy, or truthy
  (serialised as \<^verbatim>\<open>{}\<close> or not), or its getter throws, as \<^verbatim>\<open>caller\<close> does on a
  built-in function. A truthy member is read like an inherited member of a record; the
  enumerable keys that a string has are not keys of a payload and are not represented.
\<close>

datatype bmember = BThrows | BFalsy | BTruthy bool

type_synonym builtins = "string \<Rightarrow> string \<Rightarrow> bmember"

text \<open>
  \<^verbatim>\<open>const nodeRecord = prev[nodeId] || {}; const current = nodeRecord[handleId]\<close>.
\<close>

definition readSlot ::
  "builtins \<Rightarrow> (string \<rightharpoonup> (string \<rightharpoonup> 'a)) \<Rightarrow> string \<Rightarrow> string \<Rightarrow> error + 'a member" where
  "readSlot builtin prev nodeId handleId =
     (case prev nodeId of
        Some nodeRecord \<Rightarrow>
          Inr (case nodeRecord handleId of
                 Some v \<Rightarrow> Own v
               | None \<Rightarrow> inheritedMember handleId)
      | None \<Rightarrow>
          if nodeId \<in> set objectPrototypeKeys then
            (case builtin nodeId handleId of
               BThrows \<Rightarrow> Inl TypeError
             | BFalsy \<Rightarrow> Inr Undefined
             | BTruthy j \<Rightarrow> Inr (Foreign j))
          else Inr (inheritedMember handleId))"

text \<open>
  The own enumerable keys of \<^verbatim>\<open>nodeRecord\<close>, which the spread
  \<^verbatim>\<open>{...nodeRecord, [handleId]: v}\<close> copies: those of the stored record, and none when
  \<^verbatim>\<open>nodeRecord\<close> is \<^verbatim>\<open>{}\<close> or a built-in.
\<close>

definition ownKeysOf :: "(string \<rightharpoonup> (string \<rightharpoonup> 'a)) \<Rightarrow> string \<Rightarrow> (string \<rightharpoonup> 'a)" where
  "ownKeysOf prev nodeId = (case prev nodeId of None \<Rightarrow> Map.empty | Some r \<Rightarrow> r)"

text \<open>
  The result of a state updater: \<^verbatim>\<open>return prev\<close> keeps the state object, and React
  makes no transition; any other return value is a new state.
\<close>

datatype 'a update = Same | Changed 'a

definition after :: "'a \<Rightarrow> 'a update \<Rightarrow> 'a" where
  "after prev u = (case u of Same \<Rightarrow> prev | Changed new \<Rightarrow> new)"

text \<open>The tail of the four writers: compare, then keep or replace the slot.\<close>

definition commit ::
  "(string \<rightharpoonup> (string \<rightharpoonup> obj)) \<Rightarrow> string \<Rightarrow> string \<Rightarrow> obj member \<Rightarrow> obj \<Rightarrow>
   (string \<rightharpoonup> (string \<rightharpoonup> obj)) update" where
  "commit prev nodeId handleId current reconciled =
     (if sameJson current reconciled then Same
      else Changed (prev(nodeId \<mapsto> (ownKeysOf prev nodeId)(handleId \<mapsto> reconciled))))"

subsection \<open>Writers\<close>

text \<open>
  The object that \<^verbatim>\<open>registerPayload\<close> reconciles: \<^verbatim>\<open>{ ...payload }\<close>, and after
  \<^verbatim>\<open>effectivePayload.generationAllowed = false\<close> when \<^verbatim>\<open>masterOverride === false\<close>.
\<close>

definition effectiveObj :: "obj \<Rightarrow> bool option \<Rightarrow> obj" where
  "effectiveObj pl masterOverride =
     (if masterOverride = Some False then
        \<lparr> val = (view pl)\<lparr>generationAllowed := Some False\<rparr>,
          keys = spreadKeys (keys pl) [K_generationAllowed] \<rparr>
      else \<lparr> val = view pl, keys = keys pl \<rparr>)"

text \<open>The updater that \<^verbatim>\<open>registerPayload\<close> passes to \<^verbatim>\<open>setPayloadRegistry\<close>.\<close>

definition payloadUpdater ::
  "builtins \<Rightarrow> string \<Rightarrow> string \<Rightarrow> obj \<Rightarrow> bool option \<Rightarrow>
   (string \<rightharpoonup> (string \<rightharpoonup> obj)) \<Rightarrow> error + (string \<rightharpoonup> (string \<rightharpoonup> obj)) update" where
  "payloadUpdater builtin nodeId handleId pl masterOverride prev =
     (case readSlot builtin prev nodeId handleId of
        Inl e \<Rightarrow> Inl e
      | Inr currentPayload \<Rightarrow>
          (case reconcileObj (effectiveObj pl masterOverride) currentPayload of
             Inl e \<Rightarrow> Inl e
           | Inr reconciledPayload \<Rightarrow>
               Inr (commit prev nodeId handleId currentPayload reconciledPayload)))"

definition registerPayload ::
  "builtins \<Rightarrow> string \<Rightarrow> string \<Rightarrow> obj \<Rightarrow> bool option \<Rightarrow> ProceduralState \<Rightarrow>
   error + ProceduralState" where
  "registerPayload builtin nodeId handleId pl masterOverride s =
     (case payloadUpdater builtin nodeId handleId pl masterOverride (payloadRegistry s) of
        Inl e \<Rightarrow> Inl e
      | Inr u \<Rightarrow> Inr (s\<lparr>payloadRegistry := after (payloadRegistry s) u\<rparr>))"

text \<open>\<^verbatim>\<open>{ ...payload, isPolished: true }\<close>.\<close>

definition polishedObj :: "obj \<Rightarrow> obj" where
  "polishedObj pl =
     \<lparr> val = (view pl)\<lparr>isPolished := Some True\<rparr>, keys = spreadKeys (keys pl) [K_isPolished] \<rparr>"

text \<open>
  The updater of the reviewer registry, which \<^verbatim>\<open>registerReviewerPayload\<close> and
  \<^verbatim>\<open>registerPreviewPayload\<close> both use.
\<close>

definition reviewerUpdater ::
  "builtins \<Rightarrow> string \<Rightarrow> string \<Rightarrow> obj \<Rightarrow>
   (string \<rightharpoonup> (string \<rightharpoonup> obj)) \<Rightarrow> error + (string \<rightharpoonup> (string \<rightharpoonup> obj)) update" where
  "reviewerUpdater builtin nodeId handleId pl prev =
     (case readSlot builtin prev nodeId handleId of
        Inl e \<Rightarrow> Inl e
      | Inr currentPayload \<Rightarrow>
          (case reconcileObj (polishedObj pl) currentPayload of
             Inl e \<Rightarrow> Inl e
           | Inr reconciledPayload \<Rightarrow>
               Inr (commit prev nodeId handleId currentPayload reconciledPayload)))"


text \<open>
  The first updater of \<^verbatim>\<open>registerPreviewPayload\<close>, on the preview registry:
  \<^verbatim>\<open>if (nodeRecord[handleId] === renderUrl) return prev\<close>.
\<close>

definition previewUpdater ::
  "builtins \<Rightarrow> string \<Rightarrow> string \<Rightarrow> string \<Rightarrow>
   (string \<rightharpoonup> (string \<rightharpoonup> string)) \<Rightarrow> error + (string \<rightharpoonup> (string \<rightharpoonup> string)) update" where
  "previewUpdater builtin nodeId handleId renderUrl prev =
     (case readSlot builtin prev nodeId handleId of
        Inl e \<Rightarrow> Inl e
      | Inr current \<Rightarrow>
          Inr (if current = Own renderUrl then Same
               else Changed (prev(nodeId \<mapsto> (ownKeysOf prev nodeId)(handleId \<mapsto> renderUrl)))))"

text \<open>
  \<^verbatim>\<open>registerPreviewPayload\<close>: the render goes to the preview registry, the payload
  to the reviewer registry, with its own \<^verbatim>\<open>previewUrl\<close> left as it is.
\<close>

definition registerPreviewPayload ::
  "builtins \<Rightarrow> string \<Rightarrow> string \<Rightarrow> obj \<Rightarrow> string \<Rightarrow> ProceduralState \<Rightarrow>
   error + ProceduralState" where
  "registerPreviewPayload builtin nodeId handleId pl renderUrl s =
     (case previewUpdater builtin nodeId handleId renderUrl (previewRegistry s) of
        Inl e \<Rightarrow> Inl e
      | Inr u1 \<Rightarrow>
          (case reviewerUpdater builtin nodeId handleId pl (reviewerRegistry s) of
             Inl e \<Rightarrow> Inl e
           | Inr u2 \<Rightarrow>
               Inr (s\<lparr>previewRegistry := after (previewRegistry s) u1,
                       reviewerRegistry := after (reviewerRegistry s) u2\<rparr>)))"

text \<open>
  \<^verbatim>\<open>{ ...currentPayload, ...partial }\<close>: every key of the partial, also one whose value
  is \<^verbatim>\<open>undefined\<close>, replaces the value of the current object.
\<close>

definition pick :: "obj \<Rightarrow> obj \<Rightarrow> key \<Rightarrow> (payload \<Rightarrow> 'a option) \<Rightarrow> 'a option" where
  "pick c part k f = (if has part k then f (val part) else f (view c))"

definition mergeObj :: "obj \<Rightarrow> obj \<Rightarrow> obj" where
  "mergeObj c part =
     \<lparr> val =
         \<lparr> status = pick c part K_status status,
           sourceContainer = pick c part K_sourceContainer sourceContainer,
           targetContainer = pick c part K_targetContainer targetContainer,
           previewUrl = pick c part K_previewUrl previewUrl,
           sourceReference = pick c part K_sourceReference sourceReference,
           generationId = pick c part K_generationId generationId,
           isSynthesizing = pick c part K_isSynthesizing isSynthesizing,
           isConfirmed = pick c part K_isConfirmed isConfirmed,
           isTransient = pick c part K_isTransient isTransient,
           generationAllowed = pick c part K_generationAllowed generationAllowed,
           isMandatory = pick c part K_isMandatory isMandatory,
           requiresGeneration = pick c part K_requiresGeneration requiresGeneration,
           isPolished = pick c part K_isPolished isPolished,
           directives = pick c part K_directives directives,
           metrics = pick c part K_metrics metrics,
           layers = pick c part K_layers layers \<rparr>,
       keys = spreadKeys (keys c) (keys part) \<rparr>"

text \<open>
  The updater of \<^verbatim>\<open>updatePayload\<close>. The guard is
  \<^verbatim>\<open>!currentPayload && !partial.sourceContainer && !partial.previewUrl\<close>; the merged
  object is the spread when \<^verbatim>\<open>currentPayload\<close> is truthy and the partial itself
  otherwise.
\<close>

definition partialUpdater ::
  "builtins \<Rightarrow> string \<Rightarrow> string \<Rightarrow> obj \<Rightarrow>
   (string \<rightharpoonup> (string \<rightharpoonup> obj)) \<Rightarrow> error + (string \<rightharpoonup> (string \<rightharpoonup> obj)) update" where
  "partialUpdater builtin nodeId handleId part prev =
     (case readSlot builtin prev nodeId handleId of
        Inl e \<Rightarrow> Inl e
      | Inr currentPayload \<Rightarrow>
          if currentPayload = Undefined \<and> \<not> truthy_str (sourceContainer (view part)) \<and>
             \<not> truthy_str (previewUrl (view part)) then Inr Same
          else
            (let mergedPayload =
                   (case currentPayload of
                      Undefined \<Rightarrow> part
                    | Own c \<Rightarrow> mergeObj c part
                    | Foreign j \<Rightarrow> mergeObj emptyObj part)
             in case reconcileObj mergedPayload currentPayload of
                  Inl e \<Rightarrow> Inl e
                | Inr reconciledPayload \<Rightarrow>
                    Inr (commit prev nodeId handleId currentPayload reconciledPayload)))"

definition updatePayload ::
  "builtins \<Rightarrow> string \<Rightarrow> string \<Rightarrow> obj \<Rightarrow> ProceduralState \<Rightarrow> error + ProceduralState" where
  "updatePayload builtin nodeId handleId part s =
     (case partialUpdater builtin nodeId handleId part (payloadRegistry s) of
        Inl e \<Rightarrow> Inl e
      | Inr u \<Rightarrow> Inr (s\<lparr>payloadRegistry := after (payloadRegistry s) u\<rparr>))"

subsection \<open>Producer removal\<close>

text \<open>
  \<^verbatim>\<open>unregisterNode\<close>: the rest pattern \<^verbatim>\<open>const { [nodeId]: _, ...rest } = prev\<close>
  is the registry without the key. The knowledge and preview updaters return
  \<^verbatim>\<open>prev\<close> itself when \<^verbatim>\<open>prev[nodeId]\<close> is falsy, that is, when the registry has no
  such key and inherits no member of that name.
\<close>

definition unregisterNode :: "string \<Rightarrow> ProceduralState \<Rightarrow> ProceduralState" where
  "unregisterNode nodeId s =
     s\<lparr> psdRegistry := (psdRegistry s)(nodeId := None),
        templateRegistry := (templateRegistry s)(nodeId := None),
        resolvedRegistry := (resolvedRegistry s)(nodeId := None),
        payloadRegistry := (payloadRegistry s)(nodeId := None),
        reviewerRegistry := (reviewerRegistry s)(nodeId := None),
        analysisRegistry := (analysisRegistry s)(nodeId := None),
        knowledgeRegistry :=
          (if knowledgeRegistry s nodeId = None \<and> nodeId \<notin> set objectPrototypeKeys
           then knowledgeRegistry s
           else (knowledgeRegistry s)(nodeId := None)),
        previewRegistry :=
          (if previewRegistry s nodeId = None \<and> nodeId \<notin> set objectPrototypeKeys
           then previewRegistry s
           else (previewRegistry s)(nodeId := None)),
        globalVersion := globalVersion s + 1 \<rparr>"

section \<open>Sequences of writes\<close>

text \<open>One call after another; an exception ends the sequence.\<close>

definition andThen :: "error + 'a \<Rightarrow> ('a \<Rightarrow> error + 'b) \<Rightarrow> error + 'b" where
  "andThen r f = (case r of Inl e \<Rightarrow> Inl e | Inr v \<Rightarrow> f v)"

text \<open>
  The number of state transitions of the payload registry when the same payload is
  written twice in a row to one slot; \<open>None\<close> when a write throws.
\<close>

definition transitionCount :: "'a update \<Rightarrow> nat" where
  "transitionCount u = (case u of Same \<Rightarrow> 0 | Changed new \<Rightarrow> 1)"

definition transitionsOfTwoWrites ::
  "builtins \<Rightarrow> string \<Rightarrow> string \<Rightarrow> obj \<Rightarrow> bool option \<Rightarrow>
   (string \<rightharpoonup> (string \<rightharpoonup> obj)) \<Rightarrow> nat option" where
  "transitionsOfTwoWrites builtin nodeId handleId pl masterOverride prev =
     (case payloadUpdater builtin nodeId handleId pl masterOverride prev of
        Inl e \<Rightarrow> None
      | Inr u1 \<Rightarrow>
          (case payloadUpdater builtin nodeId handleId pl masterOverride (after prev u1) of
             Inl e \<Rightarrow> None
           | Inr u2 \<Rightarrow> Some (transitionCount u1 + transitionCount u2)))"

section \<open>Applying reviewer overrides\<close>

text \<open>
  \<^verbatim>\<open>applyOverridesToPayload\<close> of \<^verbatim>\<open>src/components/KnowledgeInspectorNode.tsx\<close>.
  \<^verbatim>\<open>override.individualScale || 1\<close> and \<^verbatim>\<open>rotation || 0\<close> replace a missing
  or falsy number (zero or \<^verbatim>\<open>NaN\<close>). Sums and products are binary64 operations.
\<close>

definition scaleOr1 :: "number option \<Rightarrow> number" where
  "scaleOr1 v = (case v of None \<Rightarrow> Fin 1 | Some k \<Rightarrow> if truthy_number k then k else Fin 1)"

definition numOr0 :: "number option \<Rightarrow> number" where
  "numOr0 v = (case v of None \<Rightarrow> Fin 0 | Some k \<Rightarrow> if truthy_number k then k else Fin 0)"

text \<open>The body of the \<^verbatim>\<open>if (override)\<close> block: the new coordinates and transform.\<close>

definition nudgeCoords :: "layerOverride \<Rightarrow> coords \<Rightarrow> coords" where
  "nudgeCoords override c =
     (let newX = dadd (coord_x c) (xOffset override);
          newY = dadd (coord_y c) (yOffset override);
          scaleMult = scaleOr1 (individualScale override)
      in c\<lparr>coord_x := newX, coord_y := newY,
            coord_w := dmul (coord_w c) scaleMult, coord_h := dmul (coord_h c) scaleMult\<rparr>)"

definition nudgeTransform :: "layerOverride \<Rightarrow> coords \<Rightarrow> transform \<Rightarrow> transform" where
  "nudgeTransform override c tr =
     (let newX = dadd (coord_x c) (xOffset override);
          newY = dadd (coord_y c) (yOffset override);
          scaleMult = scaleOr1 (individualScale override)
      in tr\<lparr>scaleX := dmul (scaleX tr) scaleMult, scaleY := dmul (scaleY tr) scaleMult,
             offsetX := newX, offsetY := newY,
             rotation := Some (dadd (numOr0 (rotation tr)) (numOr0 (o_rotation override)))\<rparr>)"

text \<open>
  One step of \<^verbatim>\<open>layers.map(layer => ...)\<close>: the first override whose
  \<^verbatim>\<open>layerId\<close> is the layer's id is applied, then the children are walked.
\<close>

fun updateLayer :: "layerOverride list \<Rightarrow> layer \<Rightarrow> layer" where
  "updateLayer overrides (Layer lid nm ty vis op c tr ch) =
     (case find (\<lambda>ov. layerId ov = lid) overrides of
        None \<Rightarrow> Layer lid nm ty vis op c tr (map_option (map (updateLayer overrides)) ch)
      | Some override \<Rightarrow>
          Layer lid nm ty vis op (nudgeCoords override c) (nudgeTransform override c tr)
            (map_option (map (updateLayer overrides)) ch))"

definition deepUpdate :: "layerOverride list \<Rightarrow> layer list \<Rightarrow> layer list" where
  "deepUpdate overrides ls = map (updateLayer overrides) ls"

definition applyOverridesToPayload :: "payload \<Rightarrow> layerOverride list \<Rightarrow> error + payload" where
  "applyOverridesToPayload pl overrides =
     (case layers pl of
        None \<Rightarrow> Inl TypeError
      | Some ls \<Rightarrow> Inr (pl\<lparr>layers := Some (deepUpdate overrides ls), isPolished := Some True\<rparr>))"

section \<open>Scenario data\<close>

text \<open>The three writes of the out-of-order delivery scenario.\<close>

definition write1 :: payload where
  "write1 = emptyPayload\<lparr>generationId := Some 1, isSynthesizing := Some True,
                          status := Some Loading\<rparr>"

definition write2 :: payload where
  "write2 = emptyPayload\<lparr>generationId := Some 1, isSynthesizing := Some False,
                          status := Some Success, previewUrl := Some ''A''\<rparr>"

definition write3 :: payload where
  "write3 = emptyPayload\<lparr>generationId := Some 0, status := Some Success,
                          previewUrl := Some ''OLD''\<rparr>"

text \<open>A layer of the given id and type, at the coordinates of the override scenario.\<close>

definition mkLayer :: "string \<Rightarrow> string \<Rightarrow> layer list option \<Rightarrow> layer" where
  "mkLayer lid ty ch =
     Layer lid lid ty True (Fin 1)
       \<lparr>coord_x = Fin 10, coord_y = Fin 10, coord_w = Fin 100, coord_h = Fin 50\<rparr>
       \<lparr>scaleX = Fin 1, scaleY = Fin 1, offsetX = Fin 10, offsetY = Fin 10,
         rotation = None\<rparr> ch"

text \<open>
  The artifact of the generation-gate scenario: layers \<^verbatim>\<open>0.1\<close> (pixel),
  \<^verbatim>\<open>0.2\<close> (swapped to generative) and \<^verbatim>\<open>gen-layer-7\<close> (additive), written
  with \<^verbatim>\<open>generationAllowed: false\<close>.
\<close>

definition gatedPayload :: payload where
  "gatedPayload =
     emptyPayload\<lparr>status := Some Success, generationAllowed := Some False,
       layers := Some [mkLayer ''0.1'' ''pixel'' None, mkLayer ''0.2'' ''generative'' None,
                       mkLayer ''gen-layer-7'' ''generative'' None]\<rparr>"

text \<open>
  The override of the scenario, addressed to a layer id. The literal \<^verbatim>\<open>0.9\<close> of the
  scenario denotes the binary64 value nearest to nine tenths.
\<close>

definition nudge :: "string \<Rightarrow> layerOverride" where
  "nudge lid =
     \<lparr> layerId = lid, xOffset = Fin 5, yOffset = Fin (- 5),
       individualScale = Some (round64 (9 / 10)),
       o_rotation = None, citedRule = ''rule'' \<rparr>"

text \<open>The same three writes as objects, with their keys in the order of the scenario.\<close>

definition obj1 :: obj where
  "obj1 = \<lparr> val = write1, keys = [K_generationId, K_isSynthesizing, K_status] \<rparr>"

definition obj2 :: obj where
  "obj2 = \<lparr> val = write2, keys = [K_generationId, K_isSynthesizing, K_status, K_previewUrl] \<rparr>"

definition obj3 :: obj where
  "obj3 = \<lparr> val = write3, keys = [K_generationId, K_status, K_previewUrl] \<rparr>"

text \<open>An engine whose built-ins have no truthy member under any handle id.\<close>

definition plainBuiltins :: builtins where
  "plainBuiltins = (\<lambda>nodeId handleId. BFalsy)"

text \<open>
  What the slot holds after each write of the scenario: after the first write on a slot
  that reads as \<^verbatim>\<open>undefined\<close>, after the first write on a slot that reads as an
  inherited member (the flush rule spreads the member, which has no keys, and not the
  incoming payload), after the second write and after the third.
\<close>

definition stored1 :: obj where
  "stored1 =
     \<lparr> val = write1\<lparr>targetContainer := Some [], generationId := None,
                      generationAllowed := Some True\<rparr>,
       keys = [K_generationId, K_isSynthesizing, K_status, K_previewUrl, K_sourceReference,
               K_targetContainer, K_metrics, K_generationAllowed] \<rparr>"

definition stored1Inherited :: obj where
  "stored1Inherited =
     \<lparr> val = emptyPayload\<lparr>isSynthesizing := Some True, targetContainer := Some [],
                            generationAllowed := Some True\<rparr>,
       keys = [K_isSynthesizing, K_previewUrl, K_sourceReference, K_targetContainer,
               K_metrics, K_generationId, K_generationAllowed] \<rparr>"

definition stored2 :: obj where
  "stored2 =
     \<lparr> val = write2\<lparr>isConfirmed := Some False, generationAllowed := Some True\<rparr>,
       keys = [K_generationId, K_isSynthesizing, K_status, K_previewUrl, K_isConfirmed,
               K_sourceReference, K_generationAllowed] \<rparr>"

definition stored3 :: obj where
  "stored3 =
     \<lparr> val = write3\<lparr>previewUrl := Some ''A'', generationId := Some 1,
                  isSynthesizing := Some False, isConfirmed := Some False,
                  generationAllowed := Some True\<rparr>,
       keys = [K_generationId, K_status, K_previewUrl, K_isSynthesizing, K_isConfirmed,
               K_isTransient, K_sourceReference, K_generationAllowed] \<rparr>"

text \<open>
  A payload registry whose slot \<^verbatim>\<open>node/out\<close> holds the result of writing the
  second payload of the scenario, and one that holds the same values with the keys in
  the opposite order.
\<close>

definition storedOnce :: "string \<rightharpoonup> (string \<rightharpoonup> obj)" where
  "storedOnce = [''node'' \<mapsto> [''out'' \<mapsto> stored2]]"

definition storedReordered :: "string \<rightharpoonup> (string \<rightharpoonup> obj)" where
  "storedReordered = [''node'' \<mapsto> [''out'' \<mapsto> stored2\<lparr>keys := rev (keys stored2)\<rparr>]]"

definition storedState :: ProceduralState where
  "storedState = initialState\<lparr>payloadRegistry := storedOnce\<rparr>"

text \<open>
  A store with entries of a producer \<^verbatim>\<open>k\<close> in the payload, reviewer and preview
  registries and none in the knowledge registry, next to a second producer.
\<close>

definition populated :: ProceduralState where
  "populated =
     initialState\<lparr>
       payloadRegistry := [''k'' \<mapsto> [''out'' \<mapsto> stored2], ''other'' \<mapsto> [''out'' \<mapsto> stored1]],
       reviewerRegistry := [''k'' \<mapsto> [''polished-out-0'' \<mapsto> polishedObj stored2]],
       previewRegistry := [''k'' \<mapsto> [''out'' \<mapsto> ''data:render'']],
       globalVersion := 4\<rparr>"

text \<open>
  Partials: \<^verbatim>\<open>{previewUrl: ''}\<close> and \<^verbatim>\<open>{previewUrl: 'B'}\<close>, and the artifact
  that the second leaves in a slot holding the result of the second write of the scenario.
\<close>

definition emptyPreview :: obj where
  "emptyPreview = \<lparr> val = emptyPayload\<lparr>previewUrl := Some []\<rparr>, keys = [K_previewUrl] \<rparr>"

definition retouch :: obj where
  "retouch = \<lparr> val = emptyPayload\<lparr>previewUrl := Some ''B''\<rparr>, keys = [K_previewUrl] \<rparr>"

definition retouched :: obj where
  "retouched = stored2\<lparr>val := (val stored2)\<lparr>previewUrl := Some ''B''\<rparr>\<rparr>"

text \<open>
  The artifact that the default merge builds from an empty payload.
\<close>

definition defaultsOnly :: obj where
  "defaultsOnly =
     \<lparr> val = emptyPayload\<lparr>isConfirmed := Some False, generationAllowed := Some True\<rparr>,
       keys = [K_isConfirmed, K_sourceReference, K_generationId, K_generationAllowed] \<rparr>"


section \<open>Properties of the operators\<close>

lemma or_str_absorb [simp]:
  "or_str a (or_str a b) = or_str a b"
  "or_str (or_str a b) b = or_str a b"
  "or_str a a = a"
  by (simp_all add: or_str_def)

lemma or_str_default [simp]:
  "or_str (or_str a (or_str (or_str a b) (Some []))) (Some []) = or_str (or_str a b) (Some [])"
  by (simp add: or_str_def truthy_str_def)

lemma or_int_absorb [simp]: "or_int a (or_int a b) = or_int a b" "or_int a a = a"
  by (simp_all add: or_int_def)

lemma or_obj_absorb [simp]: "or_obj a (or_obj a b) = or_obj a b" "or_obj a a = a"
  by (simp_all add: or_obj_def split: option.splits)

lemma nullish_absorb [simp]: "nullish a (nullish a b) = nullish a b" "nullish a a = a"
  by (simp_all add: nullish_def split: option.splits)

lemma nullish_default [simp]:
  "nullish (nullish a (nullish (nullish a b) (Some d))) (Some d) = nullish (nullish a b) (Some d)"
  by (simp add: nullish_def split: option.splits)

lemma cur_simps [simp]: "cur f None = None" "cur f (Some c) = f c"
  by (simp_all add: cur_def)

section \<open>The reconciler, rule by rule\<close>

text \<open>
  Each lemma gives the result of \<^const>\<open>reconcileTerminalState\<close> when the conditions of
  the earlier branches fail and the condition of one branch holds.
\<close>

lemma rts_gate:
  assumes "generationAllowed a = Some False" and "layers a = Some ls"
  shows "reconcileTerminalState a b =
         Inr (a\<lparr>previewUrl := None, isConfirmed := Some False, isTransient := Some False,
                isSynthesizing := Some False, requiresGeneration := Some False,
                layers := Some (filter keepLayer ls)\<rparr>)"
  using assms by (simp add: reconcileTerminalState_def)

lemma rts_gate_no_layers:
  assumes "generationAllowed a = Some False" and "layers a = None"
  shows "reconcileTerminalState a b = Inl TypeError"
  using assms by (simp add: reconcileTerminalState_def)

lemma rts_forced:
  assumes "generationAllowed a \<noteq> Some False" and "autoConfirm a"
  shows "reconcileTerminalState a b =
         Inr (a\<lparr>status := Some Success, isConfirmed := Some True, isTransient := Some False,
                previewUrl := or_str (previewUrl a) (cur previewUrl b),
                sourceReference := or_str (sourceReference a) (cur sourceReference b),
                generationId := or_int (generationId a) (cur generationId b)\<rparr>)"
  using assms by (simp add: reconcileTerminalState_def)

lemma rts_stale:
  assumes "generationAllowed a \<noteq> Some False" and "\<not> autoConfirm a"
    and "staleGuard a (Some c)"
  shows "reconcileTerminalState a (Some c) = Inr c"
  using assms by (simp add: reconcileTerminalState_def)

lemma rts_idle:
  assumes "generationAllowed a \<noteq> Some False" and "\<not> autoConfirm a"
    and "\<not> staleGuard a b" and "status a = Some Idle"
  shows "reconcileTerminalState a b =
         Inr (a\<lparr>previewUrl := None, isConfirmed := Some False, isTransient := Some False,
                isSynthesizing := Some False\<rparr>)"
  using assms by (simp add: reconcileTerminalState_def)

lemma rts_flush:
  assumes "generationAllowed a \<noteq> Some False" and "\<not> autoConfirm a"
    and "\<not> staleGuard a b" and "status a \<noteq> Some Idle" and "truthy_bool (isSynthesizing a)"
  shows "reconcileTerminalState a b =
         Inr ((case b of None \<Rightarrow> a | Some c \<Rightarrow> c)\<lparr>
           isSynthesizing := Some True,
           previewUrl := cur previewUrl b,
           sourceReference := or_str (sourceReference a) (cur sourceReference b),
           targetContainer :=
             or_str (or_str (targetContainer a) (cur targetContainer b)) (Some []),
           metrics := or_obj (metrics a) (cur metrics b),
           generationId := cur generationId b,
           generationAllowed := Some True\<rparr>)"
  using assms by (simp add: reconcileTerminalState_def)

lemma rts_geo:
  assumes "generationAllowed a \<noteq> Some False" and "\<not> autoConfirm a"
    and "\<not> staleGuard a b" and "status a \<noteq> Some Idle"
    and "\<not> truthy_bool (isSynthesizing a)" and "geometricPreservation a b"
  shows "reconcileTerminalState a b =
         Inr (a\<lparr>previewUrl := cur previewUrl b,
                generationId := cur generationId b,
                isSynthesizing := cur isSynthesizing b,
                isConfirmed := cur isConfirmed b,
                isTransient := cur isTransient b,
                sourceReference := or_str (cur sourceReference b) (sourceReference a),
                generationAllowed := Some True\<rparr>)"
  using assms by (simp add: reconcileTerminalState_def)

lemma rts_final:
  assumes "generationAllowed a \<noteq> Some False" and "\<not> autoConfirm a"
    and "\<not> staleGuard a b" and "status a \<noteq> Some Idle"
    and "\<not> truthy_bool (isSynthesizing a)" and "\<not> geometricPreservation a b"
  shows "reconcileTerminalState a b =
         Inr (a\<lparr>isConfirmed :=
                  (if truthy_bool (isTransient a) then Some False
                   else nullish (nullish (isConfirmed a) (cur isConfirmed b)) (Some False)),
                sourceReference := or_str (sourceReference a) (cur sourceReference b),
                generationId := or_int (generationId a) (cur generationId b),
                generationAllowed := Some True\<rparr>)"
  using assms by (simp add: reconcileTerminalState_def)

text \<open>Facts about the stale guard.\<close>

lemma staleGuard_None [simp]: "\<not> staleGuard a None"
  by (simp add: staleGuard_def)

lemma staleGuard_gid:
  "cur generationId b' = cur generationId b \<Longrightarrow> staleGuard a b' = staleGuard a b"
  by (simp add: staleGuard_def)

lemma staleGuard_falsy: "\<not> truthy_num (generationId a) \<Longrightarrow> \<not> staleGuard a b"
  by (simp add: staleGuard_def truthy_num_def split: option.splits)

lemma staleGuard_same_gid: "generationId r = generationId a \<Longrightarrow> \<not> staleGuard a (Some r)"
  by (simp add: staleGuard_def split: option.splits)

lemma staleGuard_self:
  "generationId r = or_int (generationId a) g \<Longrightarrow> \<not> staleGuard a (Some r)"
  by (simp add: staleGuard_def or_int_def truthy_num_def split: option.splits)

section \<open>Monotonic generation\<close>

text \<open>
  Claim C1, as the code has it. When both payloads carry a generation id, neither of them
  zero, and the incoming one is lower, the reconciler returns the current payload
  unchanged, provided the two rules that come before the stale guard do not apply: the
  incoming payload does not have \<^verbatim>\<open>generationAllowed === false\<close>, and it is not forced
  into auto-confirmation.
\<close>

theorem stale_guard_returns_current:
  assumes "generationId a = Some gi" and "generationId c = Some gc" and "gi < gc"
    and "gi \<noteq> 0" and "gc \<noteq> 0"
    and "generationAllowed a \<noteq> Some False" and "\<not> autoConfirm a"
  shows "reconcileTerminalState a (Some c) = Inr c"
proof -
  have "staleGuard a (Some c)"
    using assms(1-5) by (simp add: staleGuard_def)
  with assms(6,7) show ?thesis by (rule rts_stale)
qed

theorem stale_guard_returns_current_witness:
  "reconcileTerminalState (emptyPayload\<lparr>generationId := Some 1, previewUrl := Some ''OLD''\<rparr>)
     (Some (emptyPayload\<lparr>generationId := Some 2, previewUrl := Some ''A''\<rparr>)) =
   Inr (emptyPayload\<lparr>generationId := Some 2, previewUrl := Some ''A''\<rparr>)"
  by (rule stale_guard_returns_current [where gi = 1 and gc = 2])
     (simp_all add: emptyPayload_def autoConfirm_def isForced_def truthy_bool_def
        hasMandatoryDirective_def)

text \<open>
  Claim C1 as stated fails at an incoming payload of generation 1 with
  \<^verbatim>\<open>generationAllowed: false\<close> against a current payload of generation 2: the
  generation gate comes first and returns the stripped incoming payload.
\<close>

theorem monotonic_generation_counterexample:
  "generationId (emptyPayload\<lparr>generationId := Some 1, generationAllowed := Some False,
                               layers := Some []\<rparr>) = Some 1 \<and>
   generationId (emptyPayload\<lparr>generationId := Some 2\<rparr>) = Some 2 \<and>
   reconcileTerminalState
     (emptyPayload\<lparr>generationId := Some 1, generationAllowed := Some False, layers := Some []\<rparr>)
     (Some (emptyPayload\<lparr>generationId := Some 2\<rparr>)) \<noteq>
   Inr (emptyPayload\<lparr>generationId := Some 2\<rparr>)"
  by (simp add: reconcileTerminalState_def emptyPayload_def)

section \<open>Generation-disallow purity\<close>

text \<open>
  Claim C2, as the code has it. When the incoming payload has
  \<^verbatim>\<open>generationAllowed === false\<close> (and has layers to filter), the top-level layers of
  the result are exactly the incoming layers, in their order, that are not generative or
  that have a non-empty id without the prefix \<^verbatim>\<open>gen-layer-\<close>. So a generative layer
  whose id starts with \<^verbatim>\<open>gen-layer-\<close> or is empty is dropped, a generative layer with
  an original id (a swapped layer) is kept, and every layer that is not generative is kept.
\<close>

theorem gate_strips_additive_layers:
  assumes "generationAllowed a = Some False" and "layers a = Some ls"
  shows "\<exists>r rs. reconcileTerminalState a b = Inr r \<and> layers r = Some rs \<and>
           rs = filter (\<lambda>l. l_type l \<noteq> ''generative'' \<or>
                            (l_id l \<noteq> [] \<and> take 10 (l_id l) \<noteq> ''gen-layer-'')) ls \<and>
           (\<forall>l. l \<in> set rs \<longleftrightarrow>
                l \<in> set ls \<and>
                (l_type l \<noteq> ''generative'' \<or>
                 (l_id l \<noteq> [] \<and> take 10 (l_id l) \<noteq> ''gen-layer-'')))"
proof -
  have k: "keepLayer = (\<lambda>l. l_type l \<noteq> ''generative'' \<or>
                            (l_id l \<noteq> [] \<and> take 10 (l_id l) \<noteq> ''gen-layer-''))"
    by (simp add: keepLayer_def startsWith_def fun_eq_iff eval_nat_numeral)
  from assms have "reconcileTerminalState a b =
      Inr (a\<lparr>previewUrl := None, isConfirmed := Some False, isTransient := Some False,
             isSynthesizing := Some False, requiresGeneration := Some False,
             layers := Some (filter keepLayer ls)\<rparr>)"
    by (rule rts_gate)
  then show ?thesis by (simp add: k)
qed

theorem gate_strips_additive_layers_witness:
  "generationAllowed gatedPayload = Some False \<and>
   (\<exists>r rs. reconcileTerminalState gatedPayload None = Inr r \<and> layers r = Some rs \<and>
        rs = [mkLayer ''0.1'' ''pixel'' None, mkLayer ''0.2'' ''generative'' None])"
proof -
  have g: "generationAllowed gatedPayload = Some False"
    by (simp add: gatedPayload_def emptyPayload_def)
  have l: "layers gatedPayload =
             Some [mkLayer ''0.1'' ''pixel'' None, mkLayer ''0.2'' ''generative'' None,
                   mkLayer ''gen-layer-7'' ''generative'' None]"
    by (simp add: gatedPayload_def emptyPayload_def)
  from gate_strips_additive_layers [OF g l, of None] obtain r rs where
    "reconcileTerminalState gatedPayload None = Inr r" and "layers r = Some rs"
    and "rs = filter (\<lambda>l. l_type l \<noteq> ''generative'' \<or>
                            (l_id l \<noteq> [] \<and> take 10 (l_id l) \<noteq> ''gen-layer-''))
               [mkLayer ''0.1'' ''pixel'' None, mkLayer ''0.2'' ''generative'' None,
                mkLayer ''gen-layer-7'' ''generative'' None]"
    by blast
  moreover from this(3)
  have "rs = [mkLayer ''0.1'' ''pixel'' None, mkLayer ''0.2'' ''generative'' None]"
    by (simp add: mkLayer_def)
  ultimately show ?thesis using g by blast
qed

text \<open>
  Claim C2 as stated fails on the scenario of the specification itself: the result keeps
  layer \<^verbatim>\<open>0.2\<close>, which is generative and whose id lacks the synthetic prefix.
\<close>

theorem generation_disallow_counterexample:
  "generationAllowed gatedPayload = Some False \<and>
   reconcileTerminalState gatedPayload None =
     Inr (gatedPayload\<lparr>previewUrl := None, isConfirmed := Some False, isTransient := Some False,
            isSynthesizing := Some False, requiresGeneration := Some False,
            layers := Some [mkLayer ''0.1'' ''pixel'' None,
                            mkLayer ''0.2'' ''generative'' None]\<rparr>) \<and>
   l_type (mkLayer ''0.2'' ''generative'' None) = ''generative'' \<and>
   \<not> startsWith (l_id (mkLayer ''0.2'' ''generative'' None)) ''gen-layer-''"
  by (simp add: reconcileTerminalState_def gatedPayload_def emptyPayload_def keepLayer_def
        mkLayer_def startsWith_def)

section \<open>Idempotence\<close>

text \<open>Reconciling a result against itself, for each rule that builds on the incoming payload.\<close>

lemma autoConfirm_cong:
  "isMandatory r = isMandatory a \<Longrightarrow> directives r = directives a \<Longrightarrow>
   requiresGeneration r = requiresGeneration a \<Longrightarrow> autoConfirm r = autoConfirm a"
  by (simp add: autoConfirm_def isForced_def hasMandatoryDirective_def)

lemma staleGuard_same: "\<not> staleGuard r (Some r)"
  by (simp add: staleGuard_def split: option.splits)

lemma idem_gate:
  assumes "generationAllowed a = Some False" and "reconcileTerminalState a b = Inr r"
  shows "reconcileTerminalState r (Some r) = Inr r"
proof (cases "layers a")
  case None
  with assms show ?thesis by (simp add: rts_gate_no_layers)
next
  case (Some ls)
  with assms have r: "r = a\<lparr>previewUrl := None, isConfirmed := Some False, isTransient := Some False,
                isSynthesizing := Some False, requiresGeneration := Some False,
                layers := Some (filter keepLayer ls)\<rparr>"
    by (simp add: rts_gate)
  have "reconcileTerminalState r (Some r) = Inr (r\<lparr>previewUrl := None, isConfirmed := Some False, isTransient := Some False,
                isSynthesizing := Some False, requiresGeneration := Some False,
                layers := Some (filter keepLayer (filter keepLayer ls))\<rparr>)"
    by (rule rts_gate) (simp_all add: r assms(1))
  also have "\<dots> = Inr r" by (simp add: r)
  finally show ?thesis .
qed

lemma idem_forced:
  assumes "generationAllowed a \<noteq> Some False" and "autoConfirm a"
    and "reconcileTerminalState a b = Inr r"
  shows "reconcileTerminalState r (Some r) = Inr r"
proof -
  from assms have r: "r = a\<lparr>status := Some Success, isConfirmed := Some True, isTransient := Some False,
                previewUrl := or_str (previewUrl a) (cur previewUrl b),
                sourceReference := or_str (sourceReference a) (cur sourceReference b),
                generationId := or_int (generationId a) (cur generationId b)\<rparr>"
    by (simp add: rts_forced)
  have "autoConfirm r = autoConfirm a" by (rule autoConfirm_cong) (simp_all add: r)
  with assms(2) have f: "autoConfirm r" by simp
  have g: "generationAllowed r \<noteq> Some False" using assms(1) by (simp add: r)
  have "reconcileTerminalState r (Some r) = Inr (r\<lparr>status := Some Success, isConfirmed := Some True, isTransient := Some False,
                previewUrl := or_str (previewUrl r) (previewUrl r),
                sourceReference := or_str (sourceReference r) (sourceReference r),
                generationId := or_int (generationId r) (generationId r)\<rparr>)"
    using g f by (simp add: rts_forced)
  also have "\<dots> = Inr r" by (simp add: r)
  finally show ?thesis .
qed

lemma idem_idle:
  assumes "generationAllowed a \<noteq> Some False" and "\<not> autoConfirm a"
    and "\<not> staleGuard a b" and "status a = Some Idle"
    and "reconcileTerminalState a b = Inr r"
  shows "reconcileTerminalState r (Some r) = Inr r"
proof -
  from assms have r: "r = a\<lparr>previewUrl := None, isConfirmed := Some False, isTransient := Some False,
                isSynthesizing := Some False\<rparr>"
    by (simp add: rts_idle)
  have "autoConfirm r = autoConfirm a" by (rule autoConfirm_cong) (simp_all add: r)
  with assms(2) have f: "\<not> autoConfirm r" by simp
  have g: "generationAllowed r \<noteq> Some False" using assms(1) by (simp add: r)
  have i: "status r = Some Idle" using assms(4) by (simp add: r)
  have "reconcileTerminalState r (Some r) = Inr (r\<lparr>previewUrl := None, isConfirmed := Some False, isTransient := Some False,
                isSynthesizing := Some False\<rparr>)"
    using g f staleGuard_same i by (rule rts_idle)
  also have "\<dots> = Inr r" by (simp add: r)
  finally show ?thesis .
qed

lemma idem_flush_none:
  assumes "generationAllowed a \<noteq> Some False" and "\<not> autoConfirm a"
    and "status a \<noteq> Some Idle" and "truthy_bool (isSynthesizing a)"
    and "reconcileTerminalState a None = Inr r"
  shows "reconcileTerminalState r (Some r) = Inr r"
proof -
  from assms have r: "r = a\<lparr>isSynthesizing := Some True, previewUrl := None,
           sourceReference := or_str (sourceReference a) None,
           targetContainer := or_str (or_str (targetContainer a) None) (Some []),
           metrics := or_obj (metrics a) None,
           generationId := None, generationAllowed := Some True\<rparr>"
    by (simp add: rts_flush)
  have "autoConfirm r = autoConfirm a" by (rule autoConfirm_cong) (simp_all add: r)
  with assms(2) have f: "\<not> autoConfirm r" by simp
  have g: "generationAllowed r \<noteq> Some False" by (simp add: r)
  have i: "status r \<noteq> Some Idle" using assms(3) by (simp add: r)
  have y: "truthy_bool (isSynthesizing r)" by (simp add: r truthy_bool_def)
  have "reconcileTerminalState r (Some r) = Inr (r\<lparr>isSynthesizing := Some True,
           previewUrl := previewUrl r,
           sourceReference := or_str (sourceReference r) (sourceReference r),
           targetContainer := or_str (or_str (targetContainer r) (targetContainer r)) (Some []),
           metrics := or_obj (metrics r) (metrics r),
           generationId := generationId r, generationAllowed := Some True\<rparr>)"
    using g f i y staleGuard_same by (simp add: rts_flush)
  also have "\<dots> = Inr r" by (simp add: r or_str_def truthy_str_def)
  finally show ?thesis .
qed

lemma idem_final:
  assumes "generationAllowed a \<noteq> Some False" and "\<not> autoConfirm a"
    and "\<not> staleGuard a b" and "status a \<noteq> Some Idle"
    and "\<not> truthy_bool (isSynthesizing a)" and "\<not> geometricPreservation a b"
    and "reconcileTerminalState a b = Inr r"
  shows "reconcileTerminalState r (Some r) = Inr r"
proof -
  from assms have r: "r = a\<lparr>isConfirmed :=
                  (if truthy_bool (isTransient a) then Some False
                   else nullish (nullish (isConfirmed a) (cur isConfirmed b)) (Some False)),
                sourceReference := or_str (sourceReference a) (cur sourceReference b),
                generationId := or_int (generationId a) (cur generationId b),
                generationAllowed := Some True\<rparr>"
    by (simp add: rts_final)
  have "autoConfirm r = autoConfirm a" by (rule autoConfirm_cong) (simp_all add: r)
  with assms(2) have f: "\<not> autoConfirm r" by simp
  have g: "generationAllowed r \<noteq> Some False" by (simp add: r)
  have i: "status r \<noteq> Some Idle" using assms(4) by (simp add: r)
  have y: "\<not> truthy_bool (isSynthesizing r)" using assms(5) by (simp add: r)
  have p: "\<not> geometricPreservation r (Some r)" by (simp add: geometricPreservation_def)
  have "reconcileTerminalState r (Some r) = Inr (r\<lparr>isConfirmed :=
                  (if truthy_bool (isTransient r) then Some False
                   else nullish (nullish (isConfirmed r) (isConfirmed r)) (Some False)),
                sourceReference := or_str (sourceReference r) (sourceReference r),
                generationId := or_int (generationId r) (generationId r),
                generationAllowed := Some True\<rparr>)"
    using g f i y p staleGuard_same by (simp add: rts_final)
  also have "\<dots> = Inr r" by (simp add: r nullish_def split: option.splits)
  finally show ?thesis .
qed

text \<open>
  Claim C3, as the code has it. The result \<open>r\<close> of a reconciliation is a fixed point of
  reconciling \<open>r\<close> against \<open>r\<close> whenever it was built from the incoming payload: by the
  generation gate, by auto-confirmation, by idle sanitation or by the default merge, or
  by any rule when there was no current payload. The results of the stale guard, of the
  flush over an existing payload and of geometric preservation carry fields of the
  current payload as they are and are not covered.
\<close>

theorem idempotent_when_built_from_incoming:
  assumes "reconcileTerminalState a b = Inr r"
    and "generationAllowed a = Some False \<or> autoConfirm a \<or> b = None \<or>
         (\<not> staleGuard a b \<and>
          (status a = Some Idle \<or>
           (\<not> truthy_bool (isSynthesizing a) \<and> \<not> geometricPreservation a b)))"
  shows "reconcileTerminalState r (Some r) = Inr r"
proof (cases "generationAllowed a = Some False")
  case True
  from True assms(1) show ?thesis by (rule idem_gate)
next
  case gate: False
  show ?thesis
  proof (cases "autoConfirm a")
    case True
    from gate True assms(1) show ?thesis by (rule idem_forced)
  next
    case forced: False
    show ?thesis
    proof (cases "b = None")
      case True
      note none = True
      show ?thesis
      proof (cases "status a = Some Idle")
        case True
        with gate forced assms(1) none show ?thesis by (simp add: idem_idle [of a None r])
      next
        case idle: False
        show ?thesis
        proof (cases "truthy_bool (isSynthesizing a)")
          case True
          with gate forced idle assms(1) none show ?thesis by (simp add: idem_flush_none)
        next
          case False
          have "\<not> geometricPreservation a None" by (simp add: geometricPreservation_def truthy_num_def)
          with False gate forced idle assms(1) none show ?thesis
            by (simp add: idem_final [of a None r])
        qed
      qed
    next
      case False
      with gate forced assms(2) have s: "\<not> staleGuard a b" and
        d: "status a = Some Idle \<or> (\<not> truthy_bool (isSynthesizing a) \<and> \<not> geometricPreservation a b)"
        by blast+
      from d show ?thesis
      proof
        assume "status a = Some Idle"
        with gate forced s assms(1) show ?thesis by (simp add: idem_idle [of a b r])
      next
        assume e: "\<not> truthy_bool (isSynthesizing a) \<and> \<not> geometricPreservation a b"
        show ?thesis
        proof (cases "status a = Some Idle")
          case True
          with gate forced s assms(1) show ?thesis by (simp add: idem_idle [of a b r])
        next
          case False
          with gate forced s e assms(1) show ?thesis by (simp add: idem_final [of a b r])
        qed
      qed
    qed
  qed
qed

theorem idempotent_when_built_from_incoming_witness:
  "reconcileTerminalState write2 None =
     Inr (write2\<lparr>isConfirmed := Some False, generationAllowed := Some True\<rparr>) \<and>
   reconcileTerminalState (write2\<lparr>isConfirmed := Some False, generationAllowed := Some True\<rparr>)
     (Some (write2\<lparr>isConfirmed := Some False, generationAllowed := Some True\<rparr>)) =
     Inr (write2\<lparr>isConfirmed := Some False, generationAllowed := Some True\<rparr>)"
proof -
  have 1: "reconcileTerminalState write2 None =
           Inr (write2\<lparr>isConfirmed := Some False, generationAllowed := Some True\<rparr>)"
    by (simp add: reconcileTerminalState_def write2_def emptyPayload_def autoConfirm_def
          isForced_def truthy_bool_def hasMandatoryDirective_def geometricPreservation_def
          truthy_num_def or_str_def or_int_def truthy_str_def nullish_def)
  from idempotent_when_built_from_incoming [OF 1] 1 show ?thesis by simp
qed

text \<open>
  Claim C3 as stated fails when the stale guard returns the current payload: an incoming
  payload of generation 1 against a current one of generation 2 gives the current one,
  and reconciling that against itself sets \<^verbatim>\<open>isConfirmed\<close> and
  \<^verbatim>\<open>generationAllowed\<close>, which it did not have.
\<close>

theorem idempotence_counterexample:
  "reconcileTerminalState (emptyPayload\<lparr>generationId := Some 1\<rparr>)
     (Some (emptyPayload\<lparr>generationId := Some 2\<rparr>)) = Inr (emptyPayload\<lparr>generationId := Some 2\<rparr>) \<and>
   reconcileTerminalState (emptyPayload\<lparr>generationId := Some 2\<rparr>)
     (Some (emptyPayload\<lparr>generationId := Some 2\<rparr>)) =
     Inr (emptyPayload\<lparr>generationId := Some 2, isConfirmed := Some False, generationAllowed := Some True\<rparr>) \<and>
   emptyPayload\<lparr>generationId := Some 2, isConfirmed := Some False, generationAllowed := Some True\<rparr>
     \<noteq> emptyPayload\<lparr>generationId := Some 2\<rparr>"
  by (simp add: reconcileTerminalState_def emptyPayload_def autoConfirm_def isForced_def
        truthy_bool_def hasMandatoryDirective_def staleGuard_def geometricPreservation_def
        truthy_num_def or_str_def or_int_def truthy_str_def nullish_def)

section \<open>Geometric preservation\<close>

text \<open>
  Claim C4, as the code has it. When the incoming payload has no generation id and the
  current one has a non-zero one, the result has the preview of the current payload,
  provided none of the rules that clear or replace the preview applies first: the
  incoming payload does not have \<^verbatim>\<open>generationAllowed === false\<close>, is not forced into
  auto-confirmation, and is not idle.
\<close>

theorem geometric_preservation:
  assumes "generationId a = None" and "generationId c = Some g" and "g \<noteq> 0"
    and "generationAllowed a \<noteq> Some False" and "\<not> autoConfirm a"
    and "status a \<noteq> Some Idle"
  shows "\<exists>r. reconcileTerminalState a (Some c) = Inr r \<and> previewUrl r = previewUrl c"
proof -
  have s: "\<not> staleGuard a (Some c)"
    using assms(1) by (simp add: staleGuard_falsy truthy_num_def)
  have g: "geometricPreservation a (Some c)"
    using assms(1-3) by (simp add: geometricPreservation_def truthy_num_def)
  show ?thesis
  proof (cases "truthy_bool (isSynthesizing a)")
    case True
    with assms s show ?thesis by (simp add: rts_flush)
  next
    case False
    with assms s g show ?thesis by (simp add: rts_geo)
  qed
qed

theorem geometric_preservation_witness:
  "\<exists>r. reconcileTerminalState
         (emptyPayload\<lparr>status := Some Success, targetContainer := Some ''hero''\<rparr>)
         (Some (emptyPayload\<lparr>generationId := Some 7, previewUrl := Some ''A''\<rparr>)) = Inr r \<and>
       previewUrl r = Some ''A''"
  using geometric_preservation
    [of "emptyPayload\<lparr>status := Some Success, targetContainer := Some ''hero''\<rparr>"
        "emptyPayload\<lparr>generationId := Some 7, previewUrl := Some ''A''\<rparr>" 7]
  by (simp add: emptyPayload_def autoConfirm_def isForced_def truthy_bool_def
        hasMandatoryDirective_def)

text \<open>
  Claim C4 as stated fails at an idle incoming payload: idle sanitation comes before
  geometric preservation and clears the preview.
\<close>

theorem geometric_preservation_counterexample:
  "generationId (emptyPayload\<lparr>status := Some Idle\<rparr>) = None \<and>
   generationId (emptyPayload\<lparr>generationId := Some 1, previewUrl := Some ''A''\<rparr>) = Some 1 \<and>
   reconcileTerminalState (emptyPayload\<lparr>status := Some Idle\<rparr>)
     (Some (emptyPayload\<lparr>generationId := Some 1, previewUrl := Some ''A''\<rparr>)) =
   Inr (emptyPayload\<lparr>status := Some Idle, isConfirmed := Some False,
                     isTransient := Some False, isSynthesizing := Some False\<rparr>) \<and>
   previewUrl (emptyPayload\<lparr>status := Some Idle, isConfirmed := Some False,
                 isTransient := Some False, isSynthesizing := Some False\<rparr>) \<noteq>
   previewUrl (emptyPayload\<lparr>generationId := Some 1, previewUrl := Some ''A''\<rparr>)"
  by (simp add: reconcileTerminalState_def emptyPayload_def autoConfirm_def isForced_def
        truthy_bool_def hasMandatoryDirective_def staleGuard_def)

section \<open>Re-applying the same incoming payload\<close>

text \<open>
  Reconciling a payload against the result it has just produced gives that result
  again. This is what makes a repeated write a no-op. One lemma per rule.
\<close>

lemma absorb_gate:
  assumes "generationAllowed a = Some False" and "reconcileTerminalState a b = Inr r"
  shows "reconcileTerminalState a (Some r) = Inr r"
  using assms by (simp add: reconcileTerminalState_def split: option.splits)

lemma absorb_forced:
  assumes "generationAllowed a \<noteq> Some False" and "autoConfirm a"
    and "reconcileTerminalState a b = Inr r"
  shows "reconcileTerminalState a (Some r) = Inr r"
proof -
  from assms have r: "r = a\<lparr>status := Some Success, isConfirmed := Some True,
                isTransient := Some False,
                previewUrl := or_str (previewUrl a) (cur previewUrl b),
                sourceReference := or_str (sourceReference a) (cur sourceReference b),
                generationId := or_int (generationId a) (cur generationId b)\<rparr>"
    by (simp add: rts_forced)
  have "reconcileTerminalState a (Some r) =
        Inr (a\<lparr>status := Some Success, isConfirmed := Some True, isTransient := Some False,
                previewUrl := or_str (previewUrl a) (previewUrl r),
                sourceReference := or_str (sourceReference a) (sourceReference r),
                generationId := or_int (generationId a) (generationId r)\<rparr>)"
    using assms(1,2) by (simp add: rts_forced)
  also have "\<dots> = Inr r" by (simp add: r)
  finally show ?thesis .
qed

lemma absorb_stale:
  assumes "generationAllowed a \<noteq> Some False" and "\<not> autoConfirm a"
    and "staleGuard a b" and "reconcileTerminalState a b = Inr r"
  shows "reconcileTerminalState a (Some r) = Inr r"
proof (cases b)
  case None
  with assms(3) show ?thesis by simp
next
  case (Some c)
  with assms have "r = c" by (simp add: rts_stale)
  with assms Some show ?thesis by simp
qed

lemma absorb_idle:
  assumes "generationAllowed a \<noteq> Some False" and "\<not> autoConfirm a"
    and "\<not> staleGuard a b" and "status a = Some Idle"
    and "reconcileTerminalState a b = Inr r"
  shows "reconcileTerminalState a (Some r) = Inr r"
proof -
  from assms have r: "r = a\<lparr>previewUrl := None, isConfirmed := Some False,
                isTransient := Some False, isSynthesizing := Some False\<rparr>"
    by (simp add: rts_idle)
  have "\<not> staleGuard a (Some r)"
    by (rule staleGuard_same_gid) (simp add: r)
  with assms(1,2,4) have "reconcileTerminalState a (Some r) =
        Inr (a\<lparr>previewUrl := None, isConfirmed := Some False,
                isTransient := Some False, isSynthesizing := Some False\<rparr>)"
    by (simp add: rts_idle)
  then show ?thesis by (simp add: r)
qed

lemma absorb_flush:
  assumes "generationAllowed a \<noteq> Some False" and "\<not> autoConfirm a"
    and "\<not> staleGuard a b" and "status a \<noteq> Some Idle" and "truthy_bool (isSynthesizing a)"
    and "reconcileTerminalState a b = Inr r"
  shows "reconcileTerminalState a (Some r) = Inr r"
proof -
  from assms have r: "r = (case b of None \<Rightarrow> a | Some c \<Rightarrow> c)\<lparr>
          isSynthesizing := Some True,
          previewUrl := cur previewUrl b,
          sourceReference := or_str (sourceReference a) (cur sourceReference b),
          targetContainer := or_str (or_str (targetContainer a) (cur targetContainer b)) (Some []),
          metrics := or_obj (metrics a) (cur metrics b),
          generationId := cur generationId b,
          generationAllowed := Some True\<rparr>"
    by (simp add: rts_flush)
  have "cur generationId (Some r) = cur generationId b" by (simp add: r)
  then have "\<not> staleGuard a (Some r)" using assms(3) staleGuard_gid by blast
  then have "reconcileTerminalState a (Some r) = Inr (r\<lparr>
          isSynthesizing := Some True,
          previewUrl := previewUrl r,
          sourceReference := or_str (sourceReference a) (sourceReference r),
          targetContainer := or_str (or_str (targetContainer a) (targetContainer r)) (Some []),
          metrics := or_obj (metrics a) (metrics r),
          generationId := generationId r,
          generationAllowed := Some True\<rparr>)"
    using assms by (simp add: rts_flush)
  also have "\<dots> = Inr r" by (simp add: r)
  finally show ?thesis .
qed

lemma absorb_geo:
  assumes "generationAllowed a \<noteq> Some False" and "\<not> autoConfirm a"
    and "\<not> staleGuard a b" and "status a \<noteq> Some Idle"
    and "\<not> truthy_bool (isSynthesizing a)" and "geometricPreservation a b"
    and "reconcileTerminalState a b = Inr r"
  shows "reconcileTerminalState a (Some r) = Inr r"
proof -
  from assms have r: "r = a\<lparr>
          previewUrl := cur previewUrl b,
          generationId := cur generationId b,
          isSynthesizing := cur isSynthesizing b,
          isConfirmed := cur isConfirmed b,
          isTransient := cur isTransient b,
          sourceReference := or_str (cur sourceReference b) (sourceReference a),
          generationAllowed := Some True\<rparr>"
    by (simp add: rts_geo)
  have g: "geometricPreservation a (Some r)"
    using assms(6) by (simp add: geometricPreservation_def r)
  have "\<not> staleGuard a (Some r)"
    using assms(6) by (simp add: geometricPreservation_def staleGuard_falsy)
  then have "reconcileTerminalState a (Some r) = Inr (a\<lparr>
          previewUrl := previewUrl r,
          generationId := generationId r,
          isSynthesizing := isSynthesizing r,
          isConfirmed := isConfirmed r,
          isTransient := isTransient r,
          sourceReference := or_str (sourceReference r) (sourceReference a),
          generationAllowed := Some True\<rparr>)"
    using assms g by (simp add: rts_geo)
  also have "\<dots> = Inr r" by (simp add: r)
  finally show ?thesis .
qed

lemma absorb_final:
  assumes "generationAllowed a \<noteq> Some False" and "\<not> autoConfirm a"
    and "\<not> staleGuard a b" and "status a \<noteq> Some Idle"
    and "\<not> truthy_bool (isSynthesizing a)" and "\<not> geometricPreservation a b"
    and "reconcileTerminalState a b = Inr r"
  shows "reconcileTerminalState a (Some r) = Inr r"
proof -
  from assms have r: "r = a\<lparr>
          isConfirmed :=
            (if truthy_bool (isTransient a) then Some False
             else nullish (nullish (isConfirmed a) (cur isConfirmed b)) (Some False)),
          sourceReference := or_str (sourceReference a) (cur sourceReference b),
          generationId := or_int (generationId a) (cur generationId b),
          generationAllowed := Some True\<rparr>"
    by (simp add: rts_final)
  have s: "\<not> staleGuard a (Some r)"
    by (rule staleGuard_self [where g = "cur generationId b"]) (simp add: r)
  have g: "\<not> geometricPreservation a (Some r)"
    using assms(6) by (auto simp add: geometricPreservation_def r or_int_def)
  have "reconcileTerminalState a (Some r) = Inr (a\<lparr>
          isConfirmed :=
            (if truthy_bool (isTransient a) then Some False
             else nullish (nullish (isConfirmed a) (isConfirmed r)) (Some False)),
          sourceReference := or_str (sourceReference a) (sourceReference r),
          generationId := or_int (generationId a) (generationId r),
          generationAllowed := Some True\<rparr>)"
    using assms s g by (simp add: rts_final)
  also have "\<dots> = Inr r" by (simp add: r)
  finally show ?thesis .
qed

lemma reconcile_absorb:
  assumes "reconcileTerminalState a b = Inr r"
  shows "reconcileTerminalState a (Some r) = Inr r"
proof (cases "generationAllowed a = Some False")
  case True
  from True assms show ?thesis by (rule absorb_gate)
next
  case gate: False
  show ?thesis
  proof (cases "autoConfirm a")
    case True
    from gate True assms show ?thesis by (rule absorb_forced)
  next
    case forced: False
    show ?thesis
    proof (cases "staleGuard a b")
      case True
      from gate forced True assms show ?thesis by (rule absorb_stale)
    next
      case stale: False
      show ?thesis
      proof (cases "status a = Some Idle")
        case True
        from gate forced stale True assms show ?thesis by (rule absorb_idle)
      next
        case idle: False
        show ?thesis
        proof (cases "truthy_bool (isSynthesizing a)")
          case True
          from gate forced stale idle True assms show ?thesis by (rule absorb_flush)
        next
          case synth: False
          show ?thesis
          proof (cases "geometricPreservation a b")
            case True
            from gate forced stale idle synth True assms show ?thesis by (rule absorb_geo)
          next
            case False
            from gate forced stale idle synth False assms show ?thesis by (rule absorb_final)
          qed
        qed
      qed
    qed
  qed
qed

section \<open>Objects and their keys\<close>

lemma defined_simps [simp]:
  "defined p K_status = (status p \<noteq> None)"
  "defined p K_sourceContainer = (sourceContainer p \<noteq> None)"
  "defined p K_targetContainer = (targetContainer p \<noteq> None)"
  "defined p K_previewUrl = (previewUrl p \<noteq> None)"
  "defined p K_sourceReference = (sourceReference p \<noteq> None)"
  "defined p K_generationId = (generationId p \<noteq> None)"
  "defined p K_isSynthesizing = (isSynthesizing p \<noteq> None)"
  "defined p K_isConfirmed = (isConfirmed p \<noteq> None)"
  "defined p K_isTransient = (isTransient p \<noteq> None)"
  "defined p K_generationAllowed = (generationAllowed p \<noteq> None)"
  "defined p K_isMandatory = (isMandatory p \<noteq> None)"
  "defined p K_requiresGeneration = (requiresGeneration p \<noteq> None)"
  "defined p K_isPolished = (isPolished p \<noteq> None)"
  "defined p K_directives = (directives p \<noteq> None)"
  "defined p K_metrics = (metrics p \<noteq> None)"
  "defined p K_layers = (layers p \<noteq> None)"
  by (simp_all add: defined_def tagged_def split: option.splits)

lemma in_spreadKeys [simp]: "k \<in> set (spreadKeys b l) \<longleftrightarrow> k \<in> set b \<or> k \<in> set l"
  by (auto simp add: spreadKeys_def)

lemma spreadKeys_idem [simp]: "spreadKeys (spreadKeys b l) l = spreadKeys b l"
  by (simp add: spreadKeys_def)

lemma defined_view: "defined (view ob) k \<Longrightarrow> k \<in> set (keys ob)"
  by (cases k) (simp_all add: view_def rd_def has_def split: if_splits)

lemma view_keyD:
  "status (view ob) = Some x0 \<Longrightarrow> K_status \<in> set (keys ob)"
  "sourceContainer (view ob) = Some x1 \<Longrightarrow> K_sourceContainer \<in> set (keys ob)"
  "targetContainer (view ob) = Some x2 \<Longrightarrow> K_targetContainer \<in> set (keys ob)"
  "previewUrl (view ob) = Some x3 \<Longrightarrow> K_previewUrl \<in> set (keys ob)"
  "sourceReference (view ob) = Some x4 \<Longrightarrow> K_sourceReference \<in> set (keys ob)"
  "generationId (view ob) = Some x5 \<Longrightarrow> K_generationId \<in> set (keys ob)"
  "isSynthesizing (view ob) = Some x6 \<Longrightarrow> K_isSynthesizing \<in> set (keys ob)"
  "isConfirmed (view ob) = Some x7 \<Longrightarrow> K_isConfirmed \<in> set (keys ob)"
  "isTransient (view ob) = Some x8 \<Longrightarrow> K_isTransient \<in> set (keys ob)"
  "generationAllowed (view ob) = Some x9 \<Longrightarrow> K_generationAllowed \<in> set (keys ob)"
  "isMandatory (view ob) = Some x10 \<Longrightarrow> K_isMandatory \<in> set (keys ob)"
  "requiresGeneration (view ob) = Some x11 \<Longrightarrow> K_requiresGeneration \<in> set (keys ob)"
  "isPolished (view ob) = Some x12 \<Longrightarrow> K_isPolished \<in> set (keys ob)"
  "directives (view ob) = Some x13 \<Longrightarrow> K_directives \<in> set (keys ob)"
  "metrics (view ob) = Some x14 \<Longrightarrow> K_metrics \<in> set (keys ob)"
  "layers (view ob) = Some x15 \<Longrightarrow> K_layers \<in> set (keys ob)"
  by (simp_all add: view_def rd_def has_def split: if_splits)

lemma view_mk:
  assumes "\<And>k. defined v k \<Longrightarrow> k \<in> set ks"
  shows "view \<lparr> val = v, keys = ks \<rparr> = v"
proof -
  have n: "\<And>k. k \<notin> set ks \<Longrightarrow> \<not> defined v k" using assms by blast
  show ?thesis
    using n [of K_status] n [of K_sourceContainer] n [of K_targetContainer]
      n [of K_previewUrl] n [of K_sourceReference] n [of K_generationId]
      n [of K_isSynthesizing] n [of K_isConfirmed] n [of K_isTransient]
      n [of K_generationAllowed] n [of K_isMandatory] n [of K_requiresGeneration]
      n [of K_isPolished] n [of K_directives] n [of K_metrics] n [of K_layers]
    by (cases v) (simp add: view_def rd_def has_def)
qed

lemma view_view [simp]: "view \<lparr> val = view ob, keys = keys ob \<rparr> = view ob"
  by (rule view_mk) (rule defined_view)

text \<open>The rule that applies, from the conditions of the reconciler.\<close>

lemma appliedRule_iff:
  "appliedRule a b = Gate \<longleftrightarrow> generationAllowed a = Some False"
  "appliedRule a b = AutoConfirm \<longleftrightarrow> generationAllowed a \<noteq> Some False \<and> autoConfirm a"
  "appliedRule a b = Stale \<longleftrightarrow>
     generationAllowed a \<noteq> Some False \<and> \<not> autoConfirm a \<and> staleGuard a b"
  "appliedRule a b = IdleReset \<longleftrightarrow>
     generationAllowed a \<noteq> Some False \<and> \<not> autoConfirm a \<and> \<not> staleGuard a b \<and>
     status a = Some Idle"
  "appliedRule a b = Flush \<longleftrightarrow>
     generationAllowed a \<noteq> Some False \<and> \<not> autoConfirm a \<and> \<not> staleGuard a b \<and>
     status a \<noteq> Some Idle \<and> truthy_bool (isSynthesizing a)"
  "appliedRule a b = Geometric \<longleftrightarrow>
     generationAllowed a \<noteq> Some False \<and> \<not> autoConfirm a \<and> \<not> staleGuard a b \<and>
     status a \<noteq> Some Idle \<and> \<not> truthy_bool (isSynthesizing a) \<and> geometricPreservation a b"
  "appliedRule a b = DefaultMerge \<longleftrightarrow>
     generationAllowed a \<noteq> Some False \<and> \<not> autoConfirm a \<and> \<not> staleGuard a b \<and>
     status a \<noteq> Some Idle \<and> \<not> truthy_bool (isSynthesizing a) \<and>
     \<not> geometricPreservation a b"
  by (simp_all add: appliedRule_def)

lemma currentView_simps [simp]:
  "currentView Undefined = None"
  "currentView (Own ob) = Some (view ob)"
  "currentView (Foreign j) = Some emptyPayload"
  "currentKeys Undefined = None"
  "currentKeys (Own ob) = Some (keys ob)"
  "currentKeys (Foreign j) = Some []"
  by (simp_all add: currentView_def currentKeys_def)

lemma not_defined_empty [simp]: "\<not> defined emptyPayload k"
  by (cases k) (simp_all add: emptyPayload_def)

lemma defined_current:
  "currentView cm = Some c \<Longrightarrow> defined c k \<Longrightarrow> \<exists>ks. currentKeys cm = Some ks \<and> k \<in> set ks"
  by (cases cm) (auto dest: defined_view)

text \<open>Every key with a value in a reconciled payload is a key of the reconciled object.\<close>

lemma result_defined:
  assumes r: "reconcileTerminalState (view inc) (currentView cm) = Inr v"
    and d: "defined v k"
  shows "k \<in> set (resultKeys inc cm)"
proof (cases "appliedRule (view inc) (currentView cm)")
  case Gate
  then have g: "generationAllowed (view inc) = Some False" by (simp add: appliedRule_iff)
  with r obtain ls where "layers (view inc) = Some ls"
    by (cases "layers (view inc)") (simp_all add: rts_gate_no_layers)
  with g r have "v = (view inc)\<lparr>previewUrl := None, isConfirmed := Some False,
       isTransient := Some False, isSynthesizing := Some False,
       requiresGeneration := Some False, layers := Some (filter keepLayer ls)\<rparr>"
    by (simp add: rts_gate)
  with d Gate show ?thesis
    by (cases k) (auto simp add: resultKeys_def dest: view_keyD [of inc])
next
  case AutoConfirm
  with r have "v = (view inc)\<lparr>status := Some Success, isConfirmed := Some True,
       isTransient := Some False,
       previewUrl := or_str (previewUrl (view inc)) (cur previewUrl (currentView cm)),
       sourceReference :=
         or_str (sourceReference (view inc)) (cur sourceReference (currentView cm)),
       generationId := or_int (generationId (view inc)) (cur generationId (currentView cm))\<rparr>"
    by (simp add: appliedRule_iff rts_forced)
  with d AutoConfirm show ?thesis
    by (cases k) (auto simp add: resultKeys_def dest: view_keyD [of inc])
next
  case Stale
  then have s: "staleGuard (view inc) (currentView cm)" and
    g: "generationAllowed (view inc) \<noteq> Some False" "\<not> autoConfirm (view inc)"
    by (simp_all add: appliedRule_iff)
  from s obtain c where c: "currentView cm = Some c" by (cases "currentView cm") simp_all
  with r s g have "v = c" by (simp add: rts_stale)
  with d c Stale show ?thesis
    by (auto simp add: resultKeys_def dest: defined_current)
next
  case IdleReset
  with r have "v = (view inc)\<lparr>previewUrl := None, isConfirmed := Some False,
       isTransient := Some False, isSynthesizing := Some False\<rparr>"
    by (simp add: appliedRule_iff rts_idle)
  with d IdleReset show ?thesis
    by (cases k) (auto simp add: resultKeys_def dest: view_keyD [of inc])
next
  case Flush
  with r have v: "v = (case currentView cm of None \<Rightarrow> view inc | Some c \<Rightarrow> c)\<lparr>
       isSynthesizing := Some True,
       previewUrl := cur previewUrl (currentView cm),
       sourceReference :=
         or_str (sourceReference (view inc)) (cur sourceReference (currentView cm)),
       targetContainer :=
         or_str (or_str (targetContainer (view inc)) (cur targetContainer (currentView cm)))
           (Some []),
       metrics := or_obj (metrics (view inc)) (cur metrics (currentView cm)),
       generationId := cur generationId (currentView cm),
       generationAllowed := Some True\<rparr>"
    by (simp add: appliedRule_iff rts_flush)
  show ?thesis
  proof (cases cm)
    case Undefined
    with v d Flush show ?thesis
      by (cases k) (auto simp add: resultKeys_def dest: view_keyD [of inc])
  next
    case (Own ob)
    with v d Flush show ?thesis
      by (cases k) (auto simp add: resultKeys_def dest: view_keyD [of ob])
  next
    case (Foreign j)
    with v d Flush show ?thesis
      by (cases k) (auto simp add: resultKeys_def emptyPayload_def)
  qed
next
  case Geometric
  with r have "v = (view inc)\<lparr>previewUrl := cur previewUrl (currentView cm),
       generationId := cur generationId (currentView cm),
       isSynthesizing := cur isSynthesizing (currentView cm),
       isConfirmed := cur isConfirmed (currentView cm),
       isTransient := cur isTransient (currentView cm),
       sourceReference :=
         or_str (cur sourceReference (currentView cm)) (sourceReference (view inc)),
       generationAllowed := Some True\<rparr>"
    by (simp add: appliedRule_iff rts_geo)
  with d Geometric show ?thesis
    by (cases k) (auto simp add: resultKeys_def dest: view_keyD [of inc])
next
  case DefaultMerge
  with r have "v = (view inc)\<lparr>isConfirmed :=
         (if truthy_bool (isTransient (view inc)) then Some False
          else nullish (nullish (isConfirmed (view inc)) (cur isConfirmed (currentView cm)))
                 (Some False)),
       sourceReference :=
         or_str (sourceReference (view inc)) (cur sourceReference (currentView cm)),
       generationId := or_int (generationId (view inc)) (cur generationId (currentView cm)),
       generationAllowed := Some True\<rparr>"
    by (simp add: appliedRule_iff rts_final)
  with d DefaultMerge show ?thesis
    by (cases k) (auto simp add: resultKeys_def dest: view_keyD [of inc])
qed

lemma view_reconciled:
  assumes "reconcileTerminalState (view inc) (currentView cm) = Inr v"
  shows "view \<lparr> val = v, keys = resultKeys inc cm \<rparr> = v"
  by (rule view_mk) (rule result_defined [OF assms])

text \<open>
  Reconciling the same incoming object against its own result applies the same rule
  and gives the same object, with the same keys in the same order.
\<close>

lemma rule_stable:
  assumes r: "reconcileTerminalState a b = Inr r"
  shows "appliedRule a (Some r) = appliedRule a b"
proof (cases "appliedRule a b")
  case Gate
  then have "appliedRule a (Some r) = Gate" by (simp add: appliedRule_iff)
  with Gate show ?thesis by simp
next
  case AutoConfirm
  then have "appliedRule a (Some r) = AutoConfirm" by (simp add: appliedRule_iff)
  with AutoConfirm show ?thesis by simp
next
  case Stale
  then have c: "generationAllowed a \<noteq> Some False" "\<not> autoConfirm a" "staleGuard a b"
    by (simp_all add: appliedRule_iff)
  then obtain c where "b = Some c" by (cases b) simp_all
  with c r have "b = Some r" by (simp add: rts_stale)
  with Stale show ?thesis by simp
next
  case IdleReset
  then have c: "generationAllowed a \<noteq> Some False" "\<not> autoConfirm a" "\<not> staleGuard a b"
    "status a = Some Idle"
    by (simp_all add: appliedRule_iff)
  with r have "generationId r = generationId a" by (auto simp add: rts_idle)
  then have "\<not> staleGuard a (Some r)" by (rule staleGuard_same_gid)
  with c have "appliedRule a (Some r) = IdleReset" by (simp add: appliedRule_iff)
  with IdleReset show ?thesis by simp
next
  case Flush
  then have c: "generationAllowed a \<noteq> Some False" "\<not> autoConfirm a" "\<not> staleGuard a b"
    "status a \<noteq> Some Idle" "truthy_bool (isSynthesizing a)"
    by (simp_all add: appliedRule_iff)
  with r have "cur generationId (Some r) = cur generationId b" by (auto simp add: rts_flush)
  then have "staleGuard a (Some r) = staleGuard a b" by (rule staleGuard_gid)
  with c have "appliedRule a (Some r) = Flush" by (simp add: appliedRule_iff)
  with Flush show ?thesis by simp
next
  case Geometric
  then have c: "generationAllowed a \<noteq> Some False" "\<not> autoConfirm a" "\<not> staleGuard a b"
    "status a \<noteq> Some Idle" "\<not> truthy_bool (isSynthesizing a)" "geometricPreservation a b"
    by (simp_all add: appliedRule_iff)
  with r have g: "generationId r = cur generationId b" by (auto simp add: rts_geo)
  from c(6) have 1: "\<not> staleGuard a (Some r)"
    by (simp add: geometricPreservation_def staleGuard_falsy)
  from c(6) g have 2: "geometricPreservation a (Some r)"
    by (simp add: geometricPreservation_def)
  from c 1 2 have "appliedRule a (Some r) = Geometric" by (simp add: appliedRule_iff)
  with Geometric show ?thesis by simp
next
  case DefaultMerge
  then have c: "generationAllowed a \<noteq> Some False" "\<not> autoConfirm a" "\<not> staleGuard a b"
    "status a \<noteq> Some Idle" "\<not> truthy_bool (isSynthesizing a)"
    "\<not> geometricPreservation a b"
    by (simp_all add: appliedRule_iff)
  with r have g: "generationId r = or_int (generationId a) (cur generationId b)"
    by (auto simp add: rts_final)
  then have 1: "\<not> staleGuard a (Some r)" by (rule staleGuard_self)
  from c(6) g have 2: "\<not> geometricPreservation a (Some r)"
    by (auto simp add: geometricPreservation_def or_int_def)
  from c 1 2 have "appliedRule a (Some r) = DefaultMerge" by (simp add: appliedRule_iff)
  with DefaultMerge show ?thesis by simp
qed

lemma reconcileObj_Inr:
  assumes "reconcileObj inc cm = Inr r"
  shows "\<exists>v. reconcileTerminalState (view inc) (currentView cm) = Inr v \<and>
             r = \<lparr> val = v, keys = resultKeys inc cm \<rparr> \<and> view r = v"
  using assms view_reconciled [of inc cm]
  by (auto simp add: reconcileObj_def split: sum.splits)

lemma resultKeys_absorb:
  assumes v: "reconcileTerminalState (view inc) (currentView cm) = Inr v"
    and r: "r = \<lparr> val = v, keys = resultKeys inc cm \<rparr>" and w: "view r = v"
  shows "resultKeys inc (Own r) = resultKeys inc cm"
proof -
  have s: "appliedRule (view inc) (Some v) = appliedRule (view inc) (currentView cm)"
    using v by (rule rule_stable)
  show ?thesis
  proof (cases "appliedRule (view inc) (currentView cm)")
    case Stale
    with s r w show ?thesis by (simp add: resultKeys_def)
  next
    case Flush
    with s r w show ?thesis by (simp add: resultKeys_def split: option.splits)
  qed (use s r w in \<open>simp_all add: resultKeys_def\<close>)
qed

lemma reconcileObj_absorb:
  assumes "reconcileObj inc cm = Inr r"
  shows "reconcileObj inc (Own r) = Inr r"
proof -
  from reconcileObj_Inr [OF assms] obtain v where
    v: "reconcileTerminalState (view inc) (currentView cm) = Inr v"
    and r: "r = \<lparr> val = v, keys = resultKeys inc cm \<rparr>" and w: "view r = v"
    by blast
  from v have "reconcileTerminalState (view inc) (Some v) = Inr v" by (rule reconcile_absorb)
  moreover have "resultKeys inc (Own r) = resultKeys inc cm"
    using v r w by (rule resultKeys_absorb)
  ultimately show ?thesis using r w by (simp add: reconcileObj_def)
qed

section \<open>Writes to the payload registry\<close>

lemma readSlot_stored [simp]:
  "readSlot b (prev(n \<mapsto> rec(h \<mapsto> r))) n h = Inr (Own r)"
  by (simp add: readSlot_def)

lemma sameJson_refl [simp]: "sameJson (Own r) r"
  by (simp add: sameJson_def)

lemma sameJson_Undefined [simp]: "\<not> sameJson Undefined r"
  by (simp add: sameJson_def)

lemma after_simps [simp]: "after prev Same = prev" "after prev (Changed new) = new"
  by (simp_all add: after_def)

lemma payloadUpdater_Inr:
  assumes "payloadUpdater b n h pl mo prev = Inr u"
  shows "\<exists>cm r. readSlot b prev n h = Inr cm \<and>
               reconcileObj (effectiveObj pl mo) cm = Inr r \<and> u = commit prev n h cm r"
  using assms by (auto simp add: payloadUpdater_def split: sum.splits)

lemma payloadUpdater_eval:
  assumes "readSlot b prev n h = Inr cm" and "reconcileObj (effectiveObj pl mo) cm = Inr r"
  shows "payloadUpdater b n h pl mo prev = Inr (commit prev n h cm r)"
  using assms by (simp add: payloadUpdater_def)

lemma second_write_same:
  assumes "payloadUpdater b n h pl mo prev = Inr u"
  shows "payloadUpdater b n h pl mo (after prev u) = Inr Same"
proof (cases u)
  case Same
  with assms show ?thesis by simp
next
  case (Changed new)
  from payloadUpdater_Inr [OF assms] obtain cm r where
    c: "readSlot b prev n h = Inr cm" and r: "reconcileObj (effectiveObj pl mo) cm = Inr r"
    and u: "u = commit prev n h cm r" by blast
  from u Changed have new: "new = prev(n \<mapsto> (ownKeysOf prev n)(h \<mapsto> r))"
    by (simp add: commit_def split: if_splits)
  have "readSlot b new n h = Inr (Own r)" by (simp add: new)
  moreover from r have "reconcileObj (effectiveObj pl mo) (Own r) = Inr r"
    by (rule reconcileObj_absorb)
  ultimately have "payloadUpdater b n h pl mo new = Inr (commit new n h (Own r) r)"
    by (rule payloadUpdater_eval)
  with Changed show ?thesis by (simp add: commit_def)
qed

lemmas eval_defs =
  reconcileTerminalState_def emptyPayload_def autoConfirm_def isForced_def truthy_bool_def
  hasMandatoryDirective_def staleGuard_def geometricPreservation_def truthy_num_def
  or_str_def or_int_def or_obj_def truthy_str_def nullish_def cur_def

lemmas obj_defs =
  reconcileObj_def resultKeys_def appliedRule_def view_def rd_def has_def spreadKeys_def
  currentView_def currentKeys_def

lemmas json_defs =
  sameJson_def stringify_def jsonKeys_def jsonValues_def defined_def tagged_def emptyObj_def

lemma reconcileObj_effective [simp]:
  "reconcileObj (effectiveObj pl None) cm = reconcileObj pl cm"
proof -
  have "resultKeys \<lparr>val = view pl, keys = keys pl\<rparr> cm = resultKeys pl cm"
    unfolding resultKeys_def view_view by (simp split: rule.split option.split)
  then show ?thesis
    by (simp add: reconcileObj_def effectiveObj_def split: sum.split)
qed

lemma registerPayload_changed:
  assumes "readSlot b (payloadRegistry s) n h = Inr cm"
    and "reconcileObj (effectiveObj pl mo) cm = Inr r" and "\<not> sameJson cm r"
  shows "\<exists>s'. registerPayload b n h pl mo s = Inr s' \<and>
              readSlot b (payloadRegistry s') n h = Inr (Own r)"
  using assms by (simp add: registerPayload_def payloadUpdater_def commit_def)

text \<open>The writes of the scenario, one by one, and the comparison that follows each.\<close>

lemma write1_first: "reconcileObj obj1 Undefined = Inr stored1"
  by (simp add: obj1_def write1_def stored1_def obj_defs eval_defs)

lemma write1_first_inherited: "reconcileObj obj1 (Foreign j) = Inr stored1Inherited"
  by (simp add: obj1_def write1_def stored1Inherited_def obj_defs eval_defs)

lemma write2_second: "reconcileObj obj2 (Own stored1) = Inr stored2"
  by (simp add: obj2_def write2_def write1_def stored1_def stored2_def obj_defs eval_defs)

lemma write2_second_inherited: "reconcileObj obj2 (Own stored1Inherited) = Inr stored2"
  by (simp add: obj2_def write2_def stored1Inherited_def stored2_def obj_defs eval_defs)

lemma write3_third: "reconcileObj obj3 (Own stored2) = Inr stored3"
  by (simp add: obj3_def write3_def write2_def stored2_def stored3_def obj_defs eval_defs)

lemma changes:
  "\<not> sameJson (Foreign j) stored1Inherited" "\<not> sameJson (Own stored1) stored2"
  "\<not> sameJson (Own stored1Inherited) stored2" "\<not> sameJson (Own stored2) stored3"
  by (simp_all add: stored1_def stored1Inherited_def stored2_def stored3_def write1_def write2_def
      write3_def json_defs view_def rd_def has_def emptyPayload_def)

text \<open>
  Claim C5. From any state of the store in which the slot holds no payload, the three
  writes of the scenario, in this order, all return, and the slot then holds an artifact
  with preview \<^verbatim>\<open>A\<close> and generation 1. A slot without a payload reads as
  \<^verbatim>\<open>undefined\<close> or, under a name such as \<^verbatim>\<open>toString\<close>, as an inherited member;
  the result is the same in both cases. The late write carries generation 0, which the
  code reads as no generation at all: it is merged by geometric preservation, which keeps
  the preview and the generation of the stored artifact.
\<close>

theorem out_of_order_delivery:
  assumes "readSlot b (payloadRegistry s) n h = Inr m" and "\<forall>ob. m \<noteq> Own ob"
  shows "\<exists>s3. andThen (andThen (registerPayload b n h obj1 None s)
                             (registerPayload b n h obj2 None))
                    (registerPayload b n h obj3 None) = Inr s3 \<and>
               readSlot b (payloadRegistry s3) n h = Inr (Own stored3) \<and>
               previewUrl (view stored3) = Some ''A'' \<and> generationId (view stored3) = Some 1"
proof -
  have "\<exists>s1 r1. registerPayload b n h obj1 None s = Inr s1 \<and>
          readSlot b (payloadRegistry s1) n h = Inr (Own r1) \<and>
          reconcileObj obj2 (Own r1) = Inr stored2 \<and> \<not> sameJson (Own r1) stored2"
  proof (cases m)
    case Undefined
    with assms(1) have rd: "readSlot b (payloadRegistry s) n h = Inr Undefined" by simp
    have "\<exists>s'. registerPayload b n h obj1 None s = Inr s' \<and>
        readSlot b (payloadRegistry s') n h = Inr (Own stored1)"
      by (rule registerPayload_changed [OF rd]) (simp_all add: write1_first)
    with write2_second changes(2) show ?thesis by blast
  next
    case (Own ob)
    with assms(2) show ?thesis by simp
  next
    case (Foreign j)
    with assms(1) have rd: "readSlot b (payloadRegistry s) n h = Inr (Foreign j)" by simp
    have "\<exists>s'. registerPayload b n h obj1 None s = Inr s' \<and>
        readSlot b (payloadRegistry s') n h = Inr (Own stored1Inherited)"
      by (rule registerPayload_changed [OF rd])
        (simp_all add: write1_first_inherited changes(1))
    with write2_second_inherited changes(3) show ?thesis by blast
  qed
  then obtain s1 r1 where s1: "registerPayload b n h obj1 None s = Inr s1"
    and r1: "readSlot b (payloadRegistry s1) n h = Inr (Own r1)"
    and w2: "reconcileObj obj2 (Own r1) = Inr stored2" and c2: "\<not> sameJson (Own r1) stored2"
    by blast
  from w2 c2 have "\<exists>s'. registerPayload b n h obj2 None s1 = Inr s' \<and>
      readSlot b (payloadRegistry s') n h = Inr (Own stored2)"
    by (intro registerPayload_changed [OF r1]) simp_all
  then obtain s2 where s2: "registerPayload b n h obj2 None s1 = Inr s2"
    and r2: "readSlot b (payloadRegistry s2) n h = Inr (Own stored2)" by blast
  have "\<exists>s'. registerPayload b n h obj3 None s2 = Inr s' \<and>
      readSlot b (payloadRegistry s') n h = Inr (Own stored3)"
    by (rule registerPayload_changed [OF r2]) (simp_all add: write3_third changes(4))
  then obtain s3 where s3: "registerPayload b n h obj3 None s2 = Inr s3"
    and r3: "readSlot b (payloadRegistry s3) n h = Inr (Own stored3)" by blast
  have "andThen (andThen (registerPayload b n h obj1 None s) (registerPayload b n h obj2 None))
          (registerPayload b n h obj3 None) = Inr s3"
    using s1 s2 s3 by (simp add: andThen_def)
  moreover have "previewUrl (view stored3) = Some ''A''" "generationId (view stored3) = Some 1"
    by (simp_all add: stored3_def write3_def view_def rd_def has_def)
  ultimately show ?thesis using r3 by blast
qed

theorem out_of_order_delivery_witness:
  "readSlot plainBuiltins (payloadRegistry initialState) ''node'' ''out'' = Inr Undefined \<and>
   (\<exists>s3. andThen (andThen (registerPayload plainBuiltins ''node'' ''out'' obj1 None initialState)
                             (registerPayload plainBuiltins ''node'' ''out'' obj2 None))
                    (registerPayload plainBuiltins ''node'' ''out'' obj3 None) = Inr s3 \<and>
          readSlot plainBuiltins (payloadRegistry s3) ''node'' ''out'' = Inr (Own stored3)) \<and>
   readSlot plainBuiltins (payloadRegistry initialState) ''node'' ''toString'' =
     Inr (Foreign False) \<and>
   (\<exists>s3. andThen (andThen (registerPayload plainBuiltins ''node'' ''toString'' obj1 None
                               initialState)
                             (registerPayload plainBuiltins ''node'' ''toString'' obj2 None))
                    (registerPayload plainBuiltins ''node'' ''toString'' obj3 None) = Inr s3 \<and>
          readSlot plainBuiltins (payloadRegistry s3) ''node'' ''toString'' = Inr (Own stored3)) \<and>
   previewUrl (view stored3) = Some ''A'' \<and> generationId (view stored3) = Some 1"
proof -
  have e: "readSlot plainBuiltins (payloadRegistry initialState) ''node'' ''out'' = Inr Undefined"
    by (simp add: readSlot_def initialState_def objectPrototypeKeys_def inheritedMember_def)
  have f: "readSlot plainBuiltins (payloadRegistry initialState) ''node'' ''toString'' =
             Inr (Foreign False)"
    by (simp add: readSlot_def initialState_def objectPrototypeKeys_def inheritedMember_def)
  from e f out_of_order_delivery [OF e] out_of_order_delivery [OF f] show ?thesis by auto
qed

section \<open>Change suppression\<close>

lemma readSlot_empty [simp]:
  "readSlot b Map.empty ''node'' ''out'' = Inr Undefined"
  by (simp add: readSlot_def objectPrototypeKeys_def inheritedMember_def)

lemma write2_first: "reconcileObj obj2 Undefined = Inr stored2"
  by (simp add: obj2_def write2_def stored2_def obj_defs eval_defs)

lemma first_write_of_obj2:
  "payloadUpdater b ''node'' ''out'' obj2 None Map.empty = Inr (Changed storedOnce)"
  by (simp add: payloadUpdater_def write2_first commit_def storedOnce_def ownKeysOf_def)

lemma write2_reordered:
  "reconcileObj obj2 (Own (stored2\<lparr>keys := rev (keys stored2)\<rparr>)) = Inr stored2"
  by (simp add: obj2_def write2_def stored2_def obj_defs eval_defs)

lemma reordered_differs: "\<not> sameJson (Own (stored2\<lparr>keys := rev (keys stored2)\<rparr>)) stored2"
  by (simp add: stored2_def write2_def json_defs view_def rd_def has_def emptyPayload_def)

lemma write_on_reordered:
  "payloadUpdater b ''node'' ''out'' obj2 None storedReordered = Inr (Changed storedOnce)"
  by (simp add: payloadUpdater_def readSlot_def storedReordered_def write2_reordered
      reordered_differs commit_def storedOnce_def ownKeysOf_def)

text \<open>
  Claim C6, as the code has it. When the updater of a write returns, the updater of the
  same write on the state that follows returns the state object it was given, so React
  makes no transition: reconciling the payload against the stored result gives the
  stored result, with the same keys in the same order, and the two
  \<^verbatim>\<open>JSON.stringify\<close> texts are equal. Two writes in a row thus make as many
  transitions as the first write makes: one when the slot reads as \<^verbatim>\<open>undefined\<close>,
  and in general one unless the text of the stored object equals that of the reconciled
  one, which is the comparison of \<^const>\<open>commit\<close>.
\<close>

theorem second_identical_write_is_noop:
  assumes "payloadUpdater b n h pl mo (payloadRegistry s) = Inr u"
  shows "payloadUpdater b n h pl mo (after (payloadRegistry s) u) = Inr Same \<and>
         transitionsOfTwoWrites b n h pl mo (payloadRegistry s) = Some (transitionCount u) \<and>
         (readSlot b (payloadRegistry s) n h = Inr Undefined \<longrightarrow> transitionCount u = 1) \<and>
         (\<exists>cm r. readSlot b (payloadRegistry s) n h = Inr cm \<and>
                 reconcileObj (effectiveObj pl mo) cm = Inr r \<and>
                 u = commit (payloadRegistry s) n h cm r \<and>
                 reconcileObj (effectiveObj pl mo) (Own r) = Inr r) \<and>
         (\<exists>s1. registerPayload b n h pl mo s = Inr s1 \<and>
               payloadRegistry s1 = after (payloadRegistry s) u \<and>
               registerPayload b n h pl mo s1 = Inr s1)"
proof -
  let ?prev = "payloadRegistry s"
  have 2: "payloadUpdater b n h pl mo (after ?prev u) = Inr Same"
    using assms by (rule second_write_same)
  from payloadUpdater_Inr [OF assms] obtain cm r where
    c: "readSlot b ?prev n h = Inr cm" and r: "reconcileObj (effectiveObj pl mo) cm = Inr r"
    and u: "u = commit ?prev n h cm r" by blast
  from r have a: "reconcileObj (effectiveObj pl mo) (Own r) = Inr r"
    by (rule reconcileObj_absorb)
  have t: "transitionsOfTwoWrites b n h pl mo ?prev = Some (transitionCount u)"
    using assms 2 by (simp add: transitionsOfTwoWrites_def transitionCount_def)
  have e: "readSlot b ?prev n h = Inr Undefined \<longrightarrow> transitionCount u = 1"
    using c u by (auto simp add: commit_def transitionCount_def)
  let ?s1 = "s\<lparr>payloadRegistry := after ?prev u\<rparr>"
  have "registerPayload b n h pl mo s = Inr ?s1"
    using assms by (simp add: registerPayload_def)
  moreover have "registerPayload b n h pl mo ?s1 = Inr ?s1"
    using 2 by (simp add: registerPayload_def)
  ultimately have "\<exists>s1. registerPayload b n h pl mo s = Inr s1 \<and>
      payloadRegistry s1 = after ?prev u \<and> registerPayload b n h pl mo s1 = Inr s1"
    by (intro exI [of _ ?s1]) simp
  with 2 t e c r a u show ?thesis by blast
qed

theorem second_identical_write_is_noop_witness:
  "payloadUpdater plainBuiltins ''node'' ''out'' obj2 None (payloadRegistry initialState) =
     Inr (Changed storedOnce) \<and>
   payloadUpdater plainBuiltins ''node'' ''out'' obj2 None storedOnce = Inr Same \<and>
   transitionsOfTwoWrites plainBuiltins ''node'' ''out'' obj2 None (payloadRegistry initialState) =
     Some 1 \<and>
   registerPayload plainBuiltins ''node'' ''out'' obj2 None initialState = Inr storedState \<and>
   registerPayload plainBuiltins ''node'' ''out'' obj2 None storedState = Inr storedState \<and>
   payloadUpdater plainBuiltins ''node'' ''out'' obj2 None
       (payloadRegistry (initialState\<lparr>payloadRegistry := storedReordered\<rparr>)) =
     Inr (Changed storedOnce) \<and>
   transitionsOfTwoWrites plainBuiltins ''node'' ''out'' obj2 None
       (payloadRegistry (initialState\<lparr>payloadRegistry := storedReordered\<rparr>)) = Some 1"
proof -
  have 1: "payloadUpdater plainBuiltins ''node'' ''out'' obj2 None (payloadRegistry initialState) =
             Inr (Changed storedOnce)"
    using first_write_of_obj2 [of plainBuiltins] by (simp add: initialState_def)
  have 2: "payloadUpdater plainBuiltins ''node'' ''out'' obj2 None
             (payloadRegistry (initialState\<lparr>payloadRegistry := storedReordered\<rparr>)) =
           Inr (Changed storedOnce)"
    using write_on_reordered [of plainBuiltins] by simp
  have 3: "s1 = storedState"
    if "payloadRegistry s1 = storedOnce"
      and "registerPayload plainBuiltins ''node'' ''out'' obj2 None initialState = Inr s1" for s1
    using that 1 by (auto simp add: registerPayload_def storedState_def)
  from second_identical_write_is_noop [OF 1] second_identical_write_is_noop [OF 2] 1 2 3
  show ?thesis by (auto simp add: transitionCount_def)
qed

text \<open>
  Claim C6 as stated fails on a slot that already holds the reconciled payload: there
  the first of the two writes is suppressed as well, and the stored state changes zero
  times, not once.
\<close>

theorem change_suppression_counterexample:
  "payloadUpdater plainBuiltins ''node'' ''out'' obj2 None Map.empty = Inr (Changed storedOnce) \<and>
   transitionsOfTwoWrites plainBuiltins ''node'' ''out'' obj2 None storedOnce = Some 0"
proof -
  have "payloadUpdater plainBuiltins ''node'' ''out'' obj2 None storedOnce = Inr Same"
    using second_write_same [OF first_write_of_obj2 [of plainBuiltins]] by simp
  then show ?thesis
    using first_write_of_obj2 [of plainBuiltins]
    by (simp add: transitionsOfTwoWrites_def transitionCount_def)
qed

section \<open>Producer removal\<close>

text \<open>
  Claim C7. After \<^const>\<open>unregisterNode\<close> each of the eight registries has no entry
  under the producer's id and the entries it had under every other id, and the global
  version is one higher. Nothing is assumed of the state: this holds as well when the
  producer had no entry anywhere.
\<close>

theorem unregisterNode_purges_producer:
  "psdRegistry (unregisterNode n s) = (\<lambda>m. if m = n then None else psdRegistry s m) \<and>
   templateRegistry (unregisterNode n s) = (\<lambda>m. if m = n then None else templateRegistry s m) \<and>
   resolvedRegistry (unregisterNode n s) = (\<lambda>m. if m = n then None else resolvedRegistry s m) \<and>
   payloadRegistry (unregisterNode n s) = (\<lambda>m. if m = n then None else payloadRegistry s m) \<and>
   reviewerRegistry (unregisterNode n s) = (\<lambda>m. if m = n then None else reviewerRegistry s m) \<and>
   previewRegistry (unregisterNode n s) = (\<lambda>m. if m = n then None else previewRegistry s m) \<and>
   analysisRegistry (unregisterNode n s) = (\<lambda>m. if m = n then None else analysisRegistry s m) \<and>
   knowledgeRegistry (unregisterNode n s) = (\<lambda>m. if m = n then None else knowledgeRegistry s m) \<and>
   globalVersion (unregisterNode n s) = globalVersion s + 1"
  by (auto simp add: unregisterNode_def fun_eq_iff)

theorem unregisterNode_purges_producer_witness:
  "payloadRegistry (unregisterNode ''k'' populated) ''k'' = None \<and>
   reviewerRegistry (unregisterNode ''k'' populated) ''k'' = None \<and>
   previewRegistry (unregisterNode ''k'' populated) ''k'' = None \<and>
   knowledgeRegistry (unregisterNode ''k'' populated) ''k'' = None \<and>
   payloadRegistry (unregisterNode ''k'' populated) ''other'' = Some [''out'' \<mapsto> stored1] \<and>
   globalVersion (unregisterNode ''k'' populated) = 5 \<and>
   payloadRegistry (unregisterNode ''ghost'' initialState) = Map.empty \<and>
   globalVersion (unregisterNode ''ghost'' initialState) = 1"
  using unregisterNode_purges_producer [of "''k''" populated]
    unregisterNode_purges_producer [of "''ghost''" initialState]
  by (simp add: populated_def initialState_def fun_eq_iff)

section \<open>Partial writes\<close>

lemma mergeObj_field:
  "fieldOf (view (mergeObj c part)) k =
     (if has part k then fieldOf (view part) k else fieldOf (view c) k)"
  by (cases k) (simp_all add: mergeObj_def pick_def view_def rd_def has_def)

lemma partialUpdater_noop:
  assumes "readSlot b prev n h = Inr Undefined"
    and "\<not> truthy_str (sourceContainer (view part))" and "\<not> truthy_str (previewUrl (view part))"
  shows "partialUpdater b n h part prev = Inr Same"
  using assms by (simp add: partialUpdater_def)

lemma partialUpdater_fresh:
  assumes "readSlot b prev n h = Inr Undefined"
    and "truthy_str (sourceContainer (view part)) \<or> truthy_str (previewUrl (view part))"
  shows "partialUpdater b n h part prev =
           (case reconcileObj part Undefined of
              Inl e \<Rightarrow> Inl e
            | Inr r \<Rightarrow> Inr (Changed (prev(n \<mapsto> (ownKeysOf prev n)(h \<mapsto> r)))))"
  using assms by (auto simp add: partialUpdater_def commit_def split: sum.split)

lemma partialUpdater_stored:
  assumes "readSlot b prev n h = Inr (Own c)"
  shows "partialUpdater b n h part prev =
           (case reconcileObj (mergeObj c part) (Own c) of
              Inl e \<Rightarrow> Inl e
            | Inr r \<Rightarrow>
                Inr (if stringify c = stringify r then Same
                     else Changed (prev(n \<mapsto> (ownKeysOf prev n)(h \<mapsto> r)))))"
  using assms by (simp add: partialUpdater_def commit_def sameJson_def split: sum.split)

lemma retouch_merge: "reconcileObj (mergeObj stored2 retouch) (Own stored2) = Inr retouched"
  by (simp add: mergeObj_def pick_def retouch_def retouched_def stored2_def write2_def
      obj_defs eval_defs)

lemma retouch_differs: "stringify stored2 \<noteq> stringify retouched"
  by (simp add: retouched_def stored2_def write2_def json_defs view_def rd_def has_def
      emptyPayload_def)

text \<open>
  Claim C8, as the code has it. On a slot that reads as \<^verbatim>\<open>undefined\<close>, a partial in
  which neither \<^verbatim>\<open>sourceContainer\<close> nor \<^verbatim>\<open>previewUrl\<close> is truthy (the key is
  absent, or its value is \<^verbatim>\<open>undefined\<close> or the empty string) makes the updater return
  the state object it was given, and nothing is raised. On such a slot a partial with
  one of the two truthy is itself reconciled against no current payload, and the
  result is stored. On a slot that holds a payload the spread of the partial over it is
  reconciled against it, and the result is stored unless its \<^verbatim>\<open>JSON.stringify\<close>
  text is that of the stored payload. In each case an exception of the reconciler is
  the outcome of the write. The spread takes the value of every key from the partial
  when the partial has the key and from the stored payload otherwise, and appends the
  new keys of the partial to the keys of the stored payload.
\<close>

theorem updatePayload_guard:
  "(readSlot b (payloadRegistry s) n h = Inr Undefined \<and>
    \<not> truthy_str (sourceContainer (view part)) \<and> \<not> truthy_str (previewUrl (view part)) \<longrightarrow>
      partialUpdater b n h part (payloadRegistry s) = Inr Same \<and>
      updatePayload b n h part s = Inr s) \<and>
   (readSlot b (payloadRegistry s) n h = Inr Undefined \<and>
    (truthy_str (sourceContainer (view part)) \<or> truthy_str (previewUrl (view part))) \<longrightarrow>
      partialUpdater b n h part (payloadRegistry s) =
        (case reconcileObj part Undefined of
           Inl e \<Rightarrow> Inl e
         | Inr r \<Rightarrow>
             Inr (Changed ((payloadRegistry s)
                    (n \<mapsto> (ownKeysOf (payloadRegistry s) n)(h \<mapsto> r)))))) \<and>
   (readSlot b (payloadRegistry s) n h = Inr (Own c) \<longrightarrow>
      partialUpdater b n h part (payloadRegistry s) =
        (case reconcileObj (mergeObj c part) (Own c) of
           Inl e \<Rightarrow> Inl e
         | Inr r \<Rightarrow>
             Inr (if stringify c = stringify r then Same
                  else Changed ((payloadRegistry s)
                         (n \<mapsto> (ownKeysOf (payloadRegistry s) n)(h \<mapsto> r)))))) \<and>
   (\<forall>k. fieldOf (view (mergeObj c part)) k =
          (if has part k then fieldOf (view part) k else fieldOf (view c) k)) \<and>
   keys (mergeObj c part) = keys c @ filter (\<lambda>k. k \<notin> set (keys c)) (keys part)"
proof (intro conjI impI allI)
  assume a: "readSlot b (payloadRegistry s) n h = Inr Undefined \<and>
    \<not> truthy_str (sourceContainer (view part)) \<and> \<not> truthy_str (previewUrl (view part))"
  then show u: "partialUpdater b n h part (payloadRegistry s) = Inr Same"
    by (simp add: partialUpdater_noop)
  then show "updatePayload b n h part s = Inr s"
    by (simp add: updatePayload_def)
next
  assume "readSlot b (payloadRegistry s) n h = Inr Undefined \<and>
    (truthy_str (sourceContainer (view part)) \<or> truthy_str (previewUrl (view part)))"
  then show "partialUpdater b n h part (payloadRegistry s) =
        (case reconcileObj part Undefined of
           Inl e \<Rightarrow> Inl e
         | Inr r \<Rightarrow>
             Inr (Changed ((payloadRegistry s)
                    (n \<mapsto> (ownKeysOf (payloadRegistry s) n)(h \<mapsto> r)))))"
    by (intro partialUpdater_fresh) simp_all
next
  assume "readSlot b (payloadRegistry s) n h = Inr (Own c)"
  then show "partialUpdater b n h part (payloadRegistry s) =
        (case reconcileObj (mergeObj c part) (Own c) of
           Inl e \<Rightarrow> Inl e
         | Inr r \<Rightarrow>
             Inr (if stringify c = stringify r then Same
                  else Changed ((payloadRegistry s)
                         (n \<mapsto> (ownKeysOf (payloadRegistry s) n)(h \<mapsto> r)))))"
    by (rule partialUpdater_stored)
next
  fix k
  show "fieldOf (view (mergeObj c part)) k =
          (if has part k then fieldOf (view part) k else fieldOf (view c) k)"
    by (rule mergeObj_field)
next
  show "keys (mergeObj c part) = keys c @ filter (\<lambda>k. k \<notin> set (keys c)) (keys part)"
    by (simp add: mergeObj_def spreadKeys_def)
qed

theorem updatePayload_guard_witness:
  "partialUpdater plainBuiltins ''node'' ''out'' emptyObj (payloadRegistry initialState) = Inr Same \<and>
   updatePayload plainBuiltins ''node'' ''out'' emptyObj initialState = Inr initialState \<and>
   partialUpdater plainBuiltins ''node'' ''out'' obj2 (payloadRegistry initialState) =
     Inr (Changed storedOnce) \<and>
   partialUpdater plainBuiltins ''node'' ''out'' retouch (payloadRegistry storedState) =
     Inr (Changed [''node'' \<mapsto> [''out'' \<mapsto> retouched]]) \<and>
   fieldOf (view (mergeObj stored2 retouch)) K_previewUrl = VString ''B'' \<and>
   fieldOf (view (mergeObj stored2 retouch)) K_generationId = VInt 1 \<and>
   keys (mergeObj stored2 retouch) = keys stored2"
proof -
  have e: "readSlot plainBuiltins (payloadRegistry initialState) ''node'' ''out'' = Inr Undefined"
    by (simp add: initialState_def)
  have g: "readSlot plainBuiltins (payloadRegistry storedState) ''node'' ''out'' =
             Inr (Own stored2)"
    by (simp add: storedState_def storedOnce_def readSlot_def)
  have t: "\<not> truthy_str (sourceContainer (view emptyObj))"
    "\<not> truthy_str (previewUrl (view emptyObj))" "truthy_str (previewUrl (view obj2))"
    by (simp_all add: emptyObj_def emptyPayload_def obj2_def write2_def view_def rd_def
        has_def truthy_str_def)
  have f: "fieldOf (view retouch) K_previewUrl = VString ''B''" "has retouch K_previewUrl"
    "\<not> has retouch K_generationId" "fieldOf (view stored2) K_generationId = VInt 1"
    by (simp_all add: retouch_def stored2_def write2_def view_def rd_def has_def tagged_def)
  have k: "keys stored2 @ filter (\<lambda>k. k \<notin> set (keys stored2)) (keys retouch) = keys stored2"
    by (simp add: stored2_def retouch_def)
  have m: "(payloadRegistry initialState)
             (''node'' \<mapsto> (ownKeysOf (payloadRegistry initialState) ''node'')
                (''out'' \<mapsto> stored2)) = storedOnce"
    by (simp add: initialState_def storedOnce_def ownKeysOf_def)
  have m': "(payloadRegistry storedState)
             (''node'' \<mapsto> (ownKeysOf (payloadRegistry storedState) ''node'')
                (''out'' \<mapsto> retouched)) = [''node'' \<mapsto> [''out'' \<mapsto> retouched]]"
    by (simp add: storedState_def storedOnce_def ownKeysOf_def)
  from updatePayload_guard
    [where b = plainBuiltins and s = initialState and n = "''node''" and h = "''out''"
       and part = emptyObj and c = stored2] e t
  have 1: "partialUpdater plainBuiltins ''node'' ''out'' emptyObj (payloadRegistry initialState) =
             Inr Same"
    "updatePayload plainBuiltins ''node'' ''out'' emptyObj initialState = Inr initialState"
    by blast+
  from updatePayload_guard
    [where b = plainBuiltins and s = initialState and n = "''node''" and h = "''out''"
       and part = obj2 and c = stored2] e t
  have 2: "partialUpdater plainBuiltins ''node'' ''out'' obj2 (payloadRegistry initialState) =
             Inr (Changed storedOnce)"
    by (simp add: write2_first m)
  note u = updatePayload_guard
    [where b = plainBuiltins and s = storedState and n = "''node''" and h = "''out''"
       and part = retouch and c = stored2]
  from u g
  have 3: "partialUpdater plainBuiltins ''node'' ''out'' retouch (payloadRegistry storedState) =
             Inr (Changed [''node'' \<mapsto> [''out'' \<mapsto> retouched]])"
    "keys (mergeObj stored2 retouch) = keys stored2"
    by (simp_all add: retouch_merge retouch_differs m' k)
  from u have a: "\<forall>k. fieldOf (view (mergeObj stored2 retouch)) k =
          (if has retouch k then fieldOf (view retouch) k else fieldOf (view stored2) k)"
    by blast
  from a [THEN spec, of K_previewUrl] a [THEN spec, of K_generationId]
  have 4: "fieldOf (view (mergeObj stored2 retouch)) K_previewUrl = VString ''B''"
    "fieldOf (view (mergeObj stored2 retouch)) K_generationId = VInt 1"
    by (simp_all only: f if_True if_False)
  from 1 2 3 4 show ?thesis by blast
qed

text \<open>
  Claim C8 as stated fails for a partial in which \<^verbatim>\<open>previewUrl\<close> is present and
  empty: the key is there, and yet the write to the empty slot changes nothing.
\<close>

theorem partial_write_counterexample:
  "has emptyPreview K_previewUrl \<and> fieldOf (view emptyPreview) K_previewUrl = VString [] \<and>
   readSlot plainBuiltins (payloadRegistry initialState) ''node'' ''out'' = Inr Undefined \<and>
   partialUpdater plainBuiltins ''node'' ''out'' emptyPreview (payloadRegistry initialState) =
     Inr Same \<and>
   updatePayload plainBuiltins ''node'' ''out'' emptyPreview initialState = Inr initialState"
  by (simp add: emptyPreview_def emptyPayload_def has_def view_def rd_def tagged_def
      initialState_def updatePayload_def partialUpdater_def truthy_str_def)

text \<open>
  Under a handle id that names an inherited member the lookup of an empty slot is truthy,
  so that the guard of \<^verbatim>\<open>updatePayload\<close> lets an empty partial through and an
  artifact is stored.
\<close>

lemma readSlot_inherited:
  "readSlot b Map.empty ''node'' ''toString'' = Inr (Foreign False)"
  "readSlot b Map.empty ''reviewer'' ''toString'' = Inr (Foreign False)"
  by (simp_all add: readSlot_def objectPrototypeKeys_def inheritedMember_def)

lemma empty_onto_inherited:
  "reconcileObj (mergeObj emptyObj emptyObj) (Foreign False) = Inr defaultsOnly"
  by (simp add: mergeObj_def pick_def emptyObj_def defaultsOnly_def obj_defs eval_defs)

lemma partial_write_inherited_name:
  "partialUpdater b ''node'' ''toString'' emptyObj Map.empty =
     Inr (Changed [''node'' \<mapsto> [''toString'' \<mapsto> defaultsOnly]])"
  by (simp add: partialUpdater_def readSlot_inherited empty_onto_inherited commit_def
      sameJson_def ownKeysOf_def)

section \<open>The polished flag of the reviewer registry\<close>



section \<open>Override arithmetic\<close>

text \<open>Evaluating the rounding at a value whose binade is known.\<close>

lemma pow2_powr: "pow2 k = 2 powr of_int k"
  by (simp add: pow2_def powr_real_of_int inverse_eq_divide)

lemma pow2_pos [simp]: "0 < pow2 k"
  by (simp add: pow2_def)

lemma roundEven_near:
  assumes "of_int m - 1 / 2 < x" and "x < of_int m + 1 / 2"
  shows "roundEven x = m"
proof (cases "of_int m \<le> x")
  case True
  with assms have f: "\<lfloor>x\<rfloor> = m" by linarith
  with assms show ?thesis by (simp add: roundEven_def Let_def)
next
  case False
  with assms have f: "\<lfloor>x\<rfloor> = m - 1" by linarith
  with assms False show ?thesis by (simp add: roundEven_def Let_def)
qed

lemma round64_eval:
  assumes lo: "pow2 e \<le> \<bar>x\<bar>" and hi: "\<bar>x\<bar> < pow2 (e + 1)" and e: "- 1022 \<le> e"
    and m: "roundEven (\<bar>x\<bar> / pow2 (e - 52)) = m"
    and ov: "of_int m * pow2 (e - 52) < pow2 1024"
  shows "round64 x = Fin (if 0 < x then of_int m * pow2 (e - 52)
                          else - (of_int m * pow2 (e - 52)))"
proof -
  have pos: "0 < \<bar>x\<bar>" using lo pow2_pos [of e] by linarith
  then have nz: "x \<noteq> 0" by auto
  have "\<lfloor>log 2 \<bar>x\<bar>\<rfloor> = e"
    using lo hi pos by (simp add: floor_log_eq_powr_iff pow2_powr)
  with e have mx: "max \<lfloor>log 2 \<bar>x\<bar>\<rfloor> (- 1022) = e" by simp
  show ?thesis
  proof (cases "0 < x")
    case True
    then have "\<bar>x\<bar> = x" by simp
    with nz m ov mx True show ?thesis by (simp add: round64_def Let_def)
  next
    case False
    with nz have "\<bar>x\<bar> = - x" by simp
    with nz m ov mx False show ?thesis by (simp add: round64_def Let_def)
  qed
qed

lemma nine_tenths: "round64 (9 / 10) = Fin (8106479329266893 / 2 ^ 53)"
proof -
  have "roundEven (\<bar>9 / 10\<bar> / pow2 (- 1 - 52)) = 8106479329266893"
    by (rule roundEven_near) (simp_all add: pow2_def)
  from round64_eval [of "- 1" "9 / 10", OF _ _ _ this] show ?thesis
    by (simp add: pow2_def)
qed

lemma sum_15: "round64 (10 + 5) = Fin 15"
proof -
  have "roundEven (\<bar>10 + 5\<bar> / pow2 (3 - 52)) = 8444249301319680"
    by (rule roundEven_near) (simp_all add: pow2_def)
  from round64_eval [of 3 "10 + 5", OF _ _ _ this] show ?thesis
    by (simp add: pow2_def)
qed

lemma sum_5: "round64 (10 + - 5) = Fin 5"
proof -
  have "roundEven (\<bar>10 + - 5\<bar> / pow2 (2 - 52)) = 5629499534213120"
    by (rule roundEven_near) (simp_all add: pow2_def)
  from round64_eval [of 2 "10 + - 5", OF _ _ _ this] show ?thesis
    by (simp add: pow2_def)
qed

lemma product_90: "round64 (100 * (8106479329266893 / 2 ^ 53)) = Fin 90"
proof -
  have "roundEven (\<bar>100 * (8106479329266893 / 2 ^ 53)\<bar> / pow2 (6 - 52)) =
        6333186975989760"
    by (rule roundEven_near) (simp_all add: pow2_def)
  from round64_eval [of 6 "100 * (8106479329266893 / 2 ^ 53)", OF _ _ _ this] show ?thesis
    by (simp add: pow2_def)
qed

lemma product_45: "round64 (50 * (8106479329266893 / 2 ^ 53)) = Fin 45"
proof -
  have "roundEven (\<bar>50 * (8106479329266893 / 2 ^ 53)\<bar> / pow2 (5 - 52)) =
        6333186975989760"
    by (rule roundEven_near) (simp_all add: pow2_def)
  from round64_eval [of 5 "50 * (8106479329266893 / 2 ^ 53)", OF _ _ _ this] show ?thesis
    by (simp add: pow2_def)
qed

lemma product_scale: "round64 (1 * (8106479329266893 / 2 ^ 53)) = Fin (8106479329266893 / 2 ^ 53)"
proof -
  have "roundEven (\<bar>1 * (8106479329266893 / 2 ^ 53)\<bar> / pow2 (- 1 - 52)) = 8106479329266893"
    by (rule roundEven_near) (simp_all add: pow2_def)
  from round64_eval [of "- 1" "1 * (8106479329266893 / 2 ^ 53)", OF _ _ _ this] show ?thesis
    by (simp add: pow2_def)
qed

lemma sum_0: "round64 (0 + 0) = Fin 0"
  by (simp add: round64_def)

lemma updateLayer_fields:
  "l_id (updateLayer ovs l) = l_id l"
  "l_name (updateLayer ovs l) = l_name l"
  "l_type (updateLayer ovs l) = l_type l"
  "l_children (updateLayer ovs l) = map_option (map (updateLayer ovs)) (l_children l)"
  by (cases l; simp split: option.splits)+

lemma updateLayer_coords:
  "l_coords (updateLayer ovs l) =
     (case find (\<lambda>ov. layerId ov = l_id l) ovs of
        None \<Rightarrow> l_coords l
      | Some ov \<Rightarrow>
          \<lparr> coord_x = dadd (coord_x (l_coords l)) (xOffset ov),
            coord_y = dadd (coord_y (l_coords l)) (yOffset ov),
            coord_w = dmul (coord_w (l_coords l)) (scaleOr1 (individualScale ov)),
            coord_h = dmul (coord_h (l_coords l)) (scaleOr1 (individualScale ov)) \<rparr>)"
  by (cases l) (simp add: nudgeCoords_def Let_def split: option.splits)

lemma scenario_coords:
  "nudgeCoords (nudge lid)
     \<lparr>coord_x = Fin 10, coord_y = Fin 10, coord_w = Fin 100, coord_h = Fin 50\<rparr> =
   \<lparr>coord_x = Fin 15, coord_y = Fin 5, coord_w = Fin 90, coord_h = Fin 45\<rparr>"
  using sum_15 sum_5 product_90 product_45
  by (simp add: nudgeCoords_def nudge_def scaleOr1_def nine_tenths Let_def)

lemma scenario_transform:
  "nudgeTransform (nudge lid)
     \<lparr>coord_x = Fin 10, coord_y = Fin 10, coord_w = Fin 100, coord_h = Fin 50\<rparr>
     \<lparr>scaleX = Fin 1, scaleY = Fin 1, offsetX = Fin 10, offsetY = Fin 10, rotation = None\<rparr> =
   \<lparr>scaleX = Fin (8106479329266893 / 2 ^ 53), scaleY = Fin (8106479329266893 / 2 ^ 53),
     offsetX = Fin 15, offsetY = Fin 5, rotation = Some (Fin 0)\<rparr>"
  using sum_15 sum_5 product_scale sum_0
  by (simp add: nudgeTransform_def nudge_def scaleOr1_def numOr0_def nine_tenths Let_def)

text \<open>
  Claim C10. With binary64 arithmetic, the override of the scenario moves a layer at
  \<open>(10, 10, 100, 50)\<close> to exactly \<open>(15, 5, 90, 45)\<close>: the two sums are exact, and the two
  products with the binary64 value of \<^verbatim>\<open>0.9\<close> round to 90 and 45. In general the first
  override addressed to a layer adds its offsets to \<open>x\<close> and \<open>y\<close> and multiplies \<open>w\<close> and
  \<open>h\<close> by its scale, each result rounded to binary64 (a missing, zero or \<^verbatim>\<open>NaN\<close> scale
  counts as 1); a layer keeps its id, and its children are the updated children of the
  original, in the same order, so the tree keeps its shape. The last part runs the
  scenario on a layer nested in a group.
\<close>

theorem applyOverrides_arithmetic:
  "l_coords (updateLayer [nudge lid] (mkLayer lid ty ch)) =
     \<lparr>coord_x = Fin 15, coord_y = Fin 5, coord_w = Fin 90, coord_h = Fin 45\<rparr> \<and>
   l_coords (updateLayer ovs l) =
     (case find (\<lambda>ov. layerId ov = l_id l) ovs of
        None \<Rightarrow> l_coords l
      | Some ov \<Rightarrow>
          \<lparr> coord_x = dadd (coord_x (l_coords l)) (xOffset ov),
            coord_y = dadd (coord_y (l_coords l)) (yOffset ov),
            coord_w = dmul (coord_w (l_coords l)) (scaleOr1 (individualScale ov)),
            coord_h = dmul (coord_h (l_coords l)) (scaleOr1 (individualScale ov)) \<rparr>) \<and>
   l_id (updateLayer ovs l) = l_id l \<and>
   l_children (updateLayer ovs l) = map_option (map (updateLayer ovs)) (l_children l) \<and>
   applyOverridesToPayload (pl\<lparr>layers := Some ls\<rparr>) ovs =
     Inr (pl\<lparr>layers := Some (map (updateLayer ovs) ls), isPolished := Some True\<rparr>) \<and>
   applyOverridesToPayload
     (emptyPayload\<lparr>layers := Some [mkLayer ''0'' ''group'' (Some [mkLayer ''0.1'' ''pixel'' None])]\<rparr>)
     [nudge ''0.1''] =
     Inr (emptyPayload\<lparr>
       layers := Some [mkLayer ''0'' ''group''
         (Some [Layer ''0.1'' ''0.1'' ''pixel'' True (Fin 1)
                  \<lparr>coord_x = Fin 15, coord_y = Fin 5, coord_w = Fin 90, coord_h = Fin 45\<rparr>
                  \<lparr>scaleX = round64 (9 / 10), scaleY = round64 (9 / 10),
                    offsetX = Fin 15, offsetY = Fin 5, rotation = Some (Fin 0)\<rparr> None])],
       isPolished := Some True\<rparr>)"
proof -
  have 1: "l_coords (updateLayer [nudge lid] (mkLayer lid ty ch)) =
     \<lparr>coord_x = Fin 15, coord_y = Fin 5, coord_w = Fin 90, coord_h = Fin 45\<rparr>"
    using scenario_coords [of lid] by (simp add: mkLayer_def nudge_def)
  have 2: "applyOverridesToPayload (pl\<lparr>layers := Some ls\<rparr>) ovs =
     Inr (pl\<lparr>layers := Some (map (updateLayer ovs) ls), isPolished := Some True\<rparr>)"
    by (simp add: applyOverridesToPayload_def deepUpdate_def)
  have 3: "applyOverridesToPayload
     (emptyPayload\<lparr>layers := Some [mkLayer ''0'' ''group'' (Some [mkLayer ''0.1'' ''pixel'' None])]\<rparr>)
     [nudge ''0.1''] =
     Inr (emptyPayload\<lparr>
       layers := Some [mkLayer ''0'' ''group''
         (Some [Layer ''0.1'' ''0.1'' ''pixel'' True (Fin 1)
                  \<lparr>coord_x = Fin 15, coord_y = Fin 5, coord_w = Fin 90, coord_h = Fin 45\<rparr>
                  \<lparr>scaleX = round64 (9 / 10), scaleY = round64 (9 / 10),
                    offsetX = Fin 15, offsetY = Fin 5, rotation = Some (Fin 0)\<rparr> None])],
       isPolished := Some True\<rparr>)"
    using scenario_coords [of "''0.1''"] scenario_transform [of "''0.1''"]
    by (simp add: applyOverridesToPayload_def deepUpdate_def mkLayer_def nine_tenths
          emptyPayload_def) (simp add: nudge_def)
  note 4 = updateLayer_coords [of ovs l]
  note 5 = updateLayer_fields(1) [of ovs l]
  note 6 = updateLayer_fields(4) [of ovs l]
  from 1 4 5 6 2 3 show ?thesis by (intro conjI)
qed

end
